theory Spec2Isabelle
  imports Main "HOL-Library.Word"
begin

unbundle bit_operations_syntax

section \<open>The message buffer of the canary wire protocol\<close>

text \<open>
  A shallow embedding of \<^verbatim>\<open>NetworkMessage\<close> (networkmessage.hpp) and
  \<^verbatim>\<open>OutputMessage\<close> (outputmessage.hpp).

  \<^item> \<^verbatim>\<open>uint8_t\<close> is \<open>8 word\<close>, \<^verbatim>\<open>MsgSize_t = uint16_t\<close> is \<open>16 word\<close>
    (\<open>+\<close> and \<open>-\<close> wrap as \<^verbatim>\<open>+=\<close> and \<^verbatim>\<open>-=\<close> on \<^verbatim>\<open>uint16_t\<close> do).
  \<^item> \<^verbatim>\<open>std::array<uint8_t, NETWORKMESSAGE_MAXSIZE> buffer\<close> is a list of bytes; its
    length is \<^verbatim>\<open>buffer.size()\<close>. The constant \<^verbatim>\<open>NETWORKMESSAGE_MAXSIZE\<close> is declared
    in a header that is not among the sources, so the capacity is whatever length the
    list has.
  \<^item> A value of a trivially copyable type \<open>T\<close> is handled through its object
    representation \<^verbatim>\<open>std::bit_cast<std::array<unsigned char, sizeof(T)>>(value)\<close>: a
    list of \<^verbatim>\<open>sizeof(T)\<close> bytes.
  \<^item> An access outside the array is undefined behaviour in C++; the model makes it the
    result \<open>Inl OutOfBounds\<close>.
  \<^item> \<^verbatim>\<open>g_logger()\<close> is modelled by the list of entries a call writes.
  \<^item> \<^verbatim>\<open>canAdd\<close>, \<^verbatim>\<open>canRead\<close> and \<^verbatim>\<open>addPaddingBytes\<close> are declared in
    networkmessage.hpp, but their bodies are not among the sources: the functions that
    call them take them as parameters.
  \<^item> The getters \<^verbatim>\<open>getLength\<close> and \<^verbatim>\<open>getBuffer\<close>, which \<^verbatim>\<open>append\<close> calls, are
    declared there as well and their bodies are missing too: they are modelled from
    the spec, as returning the field and the array.
\<close>

type_synonym byte = "8 word"
type_synonym MsgSize_t = "16 word"

datatype fault = OutOfBounds

datatype log_entry =
    Error_CannotAdd               \<comment> \<open>"Cannot add value of size ..., buffer size: ... overflow"\<close>
  | Error_BufferOverflow          \<comment> \<open>"Buffer overflow detected, current position: ..."\<close>
  | Error_SpanCopy                \<comment> \<open>"Buffer overflow during span copy. ..."\<close>
  | Trace_add                     \<comment> \<open>"[add] called at line ..."\<close>
  | Error_InsufficientHeaderSpace \<comment> \<open>"[add_header]: Insufficient buffer space for header!"\<close>

definition INITIAL_BUFFER_POSITION :: MsgSize_t where
  "INITIAL_BUFFER_POSITION = 7"

text \<open>\<^verbatim>\<open>struct NetworkMessageInfo\<close>; the field \<^verbatim>\<open>length\<close> is named \<open>length_msg\<close>
  here, since \<open>length\<close> is the length of a list.\<close>

record NetworkMessageInfo =
  length_msg :: MsgSize_t
  position :: MsgSize_t
  overrun :: bool

text \<open>The default member initialisers: what \<^verbatim>\<open>NetworkMessageInfo {}\<close> is.\<close>

definition NetworkMessageInfo_default :: NetworkMessageInfo where
  "NetworkMessageInfo_default =
     \<lparr>length_msg = 0, position = INITIAL_BUFFER_POSITION, overrun = False\<rparr>"

record NetworkMessage =
  info :: NetworkMessageInfo
  buffer :: "byte list"

text \<open>A newly constructed message with a buffer of \<open>n\<close> bytes (\<^verbatim>\<open>buffer = {}\<close>).\<close>

definition NetworkMessage_new :: "nat \<Rightarrow> NetworkMessage" where
  "NetworkMessage_new n = \<lparr>info = NetworkMessageInfo_default, buffer = replicate n 0\<rparr>"

text \<open>\<^verbatim>\<open>void reset() { info = {}; }\<close>\<close>

definition reset :: "NetworkMessage \<Rightarrow> NetworkMessage" where
  "reset m = m\<lparr>info := NetworkMessageInfo_default\<rparr>"

text \<open>\<^verbatim>\<open>std::ranges::copy(bytes, buffer.begin() + p)\<close>, for a range that lies inside the
  buffer (every caller checks this first), and the bytes of a span of \<open>n\<close> bytes at \<open>p\<close>.\<close>

definition write_at :: "nat \<Rightarrow> byte list \<Rightarrow> byte list \<Rightarrow> byte list" where
  "write_at p bytes buf = take p buf @ bytes @ drop (p + length bytes) buf"

definition read_at :: "nat \<Rightarrow> nat \<Rightarrow> byte list \<Rightarrow> byte list" where
  "read_at p n buf = take n (drop p buf)"

text \<open>
  \<^verbatim>\<open>template <typename T> T get()\<close>. \<open>can_read\<close> is the member
  \<^verbatim>\<open>bool canRead(int32_t size) const\<close>: a \<^verbatim>\<open>const\<close> member function of a class whose
  \<^verbatim>\<open>info\<close> is not \<^verbatim>\<open>mutable\<close>, so it reads the message and returns a truth value.
  The instantiation at a type \<open>T\<close> is given by \<open>sizeof_T\<close>, which is \<^verbatim>\<open>sizeof(T)\<close>, and by
  \<open>T_init\<close>, the object representation of the value-initialised \<^verbatim>\<open>T()\<close> (a list of
  \<^verbatim>\<open>sizeof(T)\<close> bytes). \<^verbatim>\<open>T()\<close> is zero for the arithmetic types; for a trivially
  copyable class with a default member initialiser it is what the initialiser says.
  The result is the object representation of the value returned and the message after
  the call.
\<close>

definition get ::
  "(NetworkMessage \<Rightarrow> int \<Rightarrow> bool) \<Rightarrow> nat \<Rightarrow> byte list \<Rightarrow> NetworkMessage
     \<Rightarrow> fault + (byte list \<times> NetworkMessage)" where
  "get can_read sizeof_T T_init m =
     (if \<not> can_read m (int sizeof_T) then Inr (T_init, m)
      else if length (buffer m) < unat (position (info m)) + sizeof_T then Inl OutOfBounds
      else Inr (read_at (unat (position (info m))) sizeof_T (buffer m),
                m\<lparr>info := (info m)\<lparr>position := position (info m) + of_nat sizeof_T\<rparr>\<rparr>))"

text \<open>
  \<^verbatim>\<open>template <typename T> void add(T value, std::source_location)\<close>. \<open>can_add\<close> is the
  member \<^verbatim>\<open>bool canAdd(size_t size) const\<close>; \<open>val\<close> is the object representation of
  \<^verbatim>\<open>value\<close>, so \<^verbatim>\<open>sizeof(T)\<close> is its length. The comparisons are made in
  \<^verbatim>\<open>size_t\<close>, where \<^verbatim>\<open>info.position + sizeof(T)\<close> cannot wrap; the subtraction of
  the third check is reached only with \<^verbatim>\<open>info.position <= buffer.size()\<close>.
\<close>

definition add ::
  "(NetworkMessage \<Rightarrow> nat \<Rightarrow> bool) \<Rightarrow> byte list \<Rightarrow> NetworkMessage
     \<Rightarrow> log_entry list \<times> NetworkMessage" where
  "add can_add val m =
     (if \<not> can_add m (length val) then ([Error_CannotAdd], m)
      else if unat (position (info m)) + length val > length (buffer m)
        then ([Error_BufferOverflow], m)
      else if length val > length (buffer m) - unat (position (info m))
        then ([Error_SpanCopy], m)
      else ([Trace_add],
            m\<lparr>buffer := write_at (unat (position (info m))) val (buffer m),
              info := (info m)\<lparr>position := position (info m) + of_nat (length val),
                               length_msg := length_msg (info m) + of_nat (length val)\<rparr>\<rparr>))"

text \<open>
  The object representation of \<^verbatim>\<open>uint8_t\<close>, \<^verbatim>\<open>uint16_t\<close> and \<^verbatim>\<open>uint32_t\<close>
  values, and the value of a representation (\<^verbatim>\<open>std::bit_cast\<close> in both directions),
  on the little-endian machines the server is built for: the byte of lowest address is
  the least significant one.
\<close>

definition bytes_of_u8 :: "byte \<Rightarrow> byte list" where
  "bytes_of_u8 v = [v]"

definition bytes_of_u16 :: "16 word \<Rightarrow> byte list" where
  "bytes_of_u16 v = [ucast v, ucast (drop_bit 8 v)]"

definition bytes_of_u32 :: "32 word \<Rightarrow> byte list" where
  "bytes_of_u32 v =
     [ucast v, ucast (drop_bit 8 v), ucast (drop_bit 16 v), ucast (drop_bit 24 v)]"

fun u16_of_bytes :: "byte list \<Rightarrow> 16 word" where
  "u16_of_bytes [b0, b1] = ucast b0 OR push_bit 8 (ucast b1)"
| "u16_of_bytes _ = 0"

fun u32_of_bytes :: "byte list \<Rightarrow> 32 word" where
  "u32_of_bytes [b0, b1, b2, b3] =
     ucast b0 OR push_bit 8 (ucast b1) OR push_bit 16 (ucast b2) OR push_bit 24 (ucast b3)"
| "u32_of_bytes _ = 0"

fun u8_of_bytes :: "byte list \<Rightarrow> byte" where
  "u8_of_bytes [b0] = b0"
| "u8_of_bytes _ = 0"

text \<open>\<^verbatim>\<open>get<uint8_t>()\<close>, \<^verbatim>\<open>get<uint16_t>()\<close> and \<^verbatim>\<open>get<uint32_t>()\<close>: for these
  types \<^verbatim>\<open>T()\<close> is 0.\<close>

definition get_u8 ::
  "(NetworkMessage \<Rightarrow> int \<Rightarrow> bool) \<Rightarrow> NetworkMessage \<Rightarrow> fault + (byte \<times> NetworkMessage)" where
  "get_u8 can_read m = map_sum id (map_prod u8_of_bytes id) (get can_read 1 (bytes_of_u8 0) m)"

definition get_u16 ::
  "(NetworkMessage \<Rightarrow> int \<Rightarrow> bool) \<Rightarrow> NetworkMessage \<Rightarrow> fault + (16 word \<times> NetworkMessage)" where
  "get_u16 can_read m = map_sum id (map_prod u16_of_bytes id) (get can_read 2 (bytes_of_u16 0) m)"

definition get_u32 ::
  "(NetworkMessage \<Rightarrow> int \<Rightarrow> bool) \<Rightarrow> NetworkMessage \<Rightarrow> fault + (32 word \<times> NetworkMessage)" where
  "get_u32 can_read m = map_sum id (map_prod u32_of_bytes id) (get can_read 4 (bytes_of_u32 0) m)"

text \<open>A trivially copyable type whose \<^verbatim>\<open>T()\<close> is not zero:
  \<^verbatim>\<open>struct WithInit { uint32_t a = 7; };\<close> of size 4. Both \<^verbatim>\<open>static_assert\<close>s of
  \<^verbatim>\<open>get\<close> admit it.\<close>

definition WithInit_init :: "byte list" where
  "WithInit_init = bytes_of_u32 7"

subsection \<open>OutputMessage\<close>

text \<open>
  \<^verbatim>\<open>class OutputMessage : public NetworkMessage\<close>: the base-class subobject and the
  private member \<^verbatim>\<open>outputBufferStart\<close>. A member function of \<^verbatim>\<open>NetworkMessage\<close>
  works on \<open>base\<close> and cannot reach \<open>outputBufferStart\<close>.
\<close>

record OutputMessage =
  base :: NetworkMessage
  outputBufferStart :: MsgSize_t

definition OutputMessage_new :: "nat \<Rightarrow> OutputMessage" where
  "OutputMessage_new n =
     \<lparr>base = NetworkMessage_new n, outputBufferStart = INITIAL_BUFFER_POSITION\<rparr>"

text \<open>\<^verbatim>\<open>getOutputBuffer()\<close> returns \<^verbatim>\<open>buffer.data() + outputBufferStart\<close>: the bytes
  from the header cursor on. The frame of a message is the first \<^verbatim>\<open>info.length\<close> of
  them: the headers prepended so far, then the payload.\<close>

definition getOutputBuffer :: "OutputMessage \<Rightarrow> byte list" where
  "getOutputBuffer om = drop (unat (outputBufferStart om)) (buffer (base om))"

definition frame :: "OutputMessage \<Rightarrow> byte list" where
  "frame om = take (unat (length_msg (info (base om)))) (getOutputBuffer om)"

text \<open>
  \<^verbatim>\<open>template <typename T> void add_header(T addHeader)\<close>; \<open>addHeader\<close> is the object
  representation of the header. The copy starts at \<^verbatim>\<open>buffer.begin() + outputBufferStart\<close>
  after the decrement; it stays inside the array when the cursor was inside it.
\<close>

definition add_header ::
  "byte list \<Rightarrow> OutputMessage \<Rightarrow> fault + (log_entry list \<times> OutputMessage)" where
  "add_header addHeader om =
     (if unat (outputBufferStart om) < length addHeader
        then Inr ([Error_InsufficientHeaderSpace], om)
      else if length (buffer (base om)) < unat (outputBufferStart om) then Inl OutOfBounds
      else Inr ([],
        om\<lparr>outputBufferStart := outputBufferStart om - of_nat (length addHeader),
           base := (base om)
             \<lparr>buffer := write_at (unat (outputBufferStart om - of_nat (length addHeader)))
                          addHeader (buffer (base om)),
              info := (info (base om))
                \<lparr>length_msg := length_msg (info (base om)) + of_nat (length addHeader)\<rparr>\<rparr>\<rparr>))"

text \<open>Sequencing of two calls: the second runs on the message the first left, unless
  the first was undefined behaviour; the log entries are collected in order.\<close>

definition and_then ::
  "fault + (log_entry list \<times> 'a) \<Rightarrow> ('a \<Rightarrow> fault + (log_entry list \<times> 'b))
     \<Rightarrow> fault + (log_entry list \<times> 'b)" where
  "and_then r f =
     (case r of
        Inl e \<Rightarrow> Inl e
      | Inr (lg, x) \<Rightarrow> (case f x of Inl e \<Rightarrow> Inl e | Inr (lg', y) \<Rightarrow> Inr (lg @ lg', y)))"

text \<open>
  \<^verbatim>\<open>uint8_t paddingAmount = 8 - (info.length % 8) - 1;\<close> computed in \<^verbatim>\<open>int\<close> (the
  operands are promoted) and converted to \<^verbatim>\<open>uint8_t\<close>.
\<close>

definition paddingAmount :: "MsgSize_t \<Rightarrow> byte" where
  "paddingAmount len = word_of_int (8 - (uint len mod 8) - 1)"

text \<open>
  \<^verbatim>\<open>writePaddingAmount()\<close>. \<open>add_padding_bytes\<close> is the base-class member
  \<^verbatim>\<open>void addPaddingBytes(size_t n)\<close>.
\<close>

definition writePaddingAmount ::
  "(nat \<Rightarrow> NetworkMessage \<Rightarrow> NetworkMessage) \<Rightarrow> OutputMessage
     \<Rightarrow> fault + (log_entry list \<times> OutputMessage)" where
  "writePaddingAmount add_padding_bytes om =
     (let padding = paddingAmount (length_msg (info (base om)))
      in add_header (bytes_of_u8 padding)
           (om\<lparr>base := add_padding_bytes (unat padding) (base om)\<rparr>))"

text \<open>Division of \<^verbatim>\<open>int\<close> in C++ truncates towards zero (HOL's \<open>div\<close> rounds down).\<close>

definition c_div :: "int \<Rightarrow> int \<Rightarrow> int" where
  "c_div a b = sgn a * sgn b * (\<bar>a\<bar> div \<bar>b\<bar>)"

text \<open>
  \<^verbatim>\<open>add_header(static_cast<uint16_t>((info.length - 4) / 8));\<close> The subtraction and the
  division are made in \<^verbatim>\<open>int\<close>, the cast reduces modulo \<open>2 ^ 16\<close>.
\<close>

definition blockLength :: "MsgSize_t \<Rightarrow> 16 word" where
  "blockLength len = word_of_int (c_div (uint len - 4) 8)"

definition writeMessageLength ::
  "OutputMessage \<Rightarrow> fault + (log_entry list \<times> OutputMessage)" where
  "writeMessageLength om =
     add_header (bytes_of_u16 (blockLength (length_msg (info (base om))))) om"

definition addCryptoHeader ::
  "bool \<Rightarrow> 32 word \<Rightarrow> OutputMessage \<Rightarrow> fault + (log_entry list \<times> OutputMessage)" where
  "addCryptoHeader addChecksum checksum om =
     and_then (if addChecksum then add_header (bytes_of_u32 checksum) om else Inr ([], om))
       writeMessageLength"

text \<open>
  Modelled from the spec: the body of \<^verbatim>\<open>NetworkMessage::getLength\<close> is missing (only
  its declaration \<^verbatim>\<open>MsgSize_t getLength() const\<close> is in networkmessage.hpp). The
  spec's \<^verbatim>\<open>append(other)\<close> copies "length \<open>other.length\<close>" bytes: the getter returns the
  field \<^verbatim>\<open>info.length\<close>.
\<close>

definition getLength :: "NetworkMessage \<Rightarrow> MsgSize_t" where
  "getLength m = length_msg (info m)"

text \<open>
  Modelled from the spec: the body of \<^verbatim>\<open>NetworkMessage::getBuffer\<close> is missing (only
  its declaration \<^verbatim>\<open>const uint8_t* getBuffer() const\<close> is in networkmessage.hpp). The
  spec's \<^verbatim>\<open>append(other)\<close> copies "\<open>other\<close>'s payload bytes (from its reserved-prefix
  offset onward ...)": the getter returns the start of the byte array.
\<close>

definition getBuffer :: "NetworkMessage \<Rightarrow> byte list" where
  "getBuffer m = buffer m"

text \<open>
  \<^verbatim>\<open>void append(const NetworkMessage &msg)\<close>, for a message \<open>msg\<close> that is another
  object than the one appended to. The source span is \<open>msgLen\<close> bytes of
  \<^verbatim>\<open>msg.getBuffer()\<close> from offset 7, the destination \<open>msgLen\<close> bytes of this buffer from
  \<^verbatim>\<open>info.position\<close>; nothing is checked, so a span that leaves its array is undefined
  behaviour.
\<close>

definition append_msg :: "NetworkMessage \<Rightarrow> OutputMessage \<Rightarrow> fault + OutputMessage" where
  "append_msg msg om =
     (let msgLen = getLength msg;
          pos = position (info (base om))
      in if length (getBuffer msg) < unat INITIAL_BUFFER_POSITION + unat msgLen
            \<or> length (buffer (base om)) < unat pos + unat msgLen
         then Inl OutOfBounds
         else Inr (om\<lparr>base := (base om)
                \<lparr>buffer := write_at (unat pos)
                     (read_at (unat INITIAL_BUFFER_POSITION) (unat msgLen) (getBuffer msg))
                     (buffer (base om)),
                 info := (info (base om))
                   \<lparr>length_msg := length_msg (info (base om)) + msgLen,
                    position := pos + msgLen\<rparr>\<rparr>\<rparr>))"

text \<open>
  \<^verbatim>\<open>void append(const OutputMessage_ptr &msg)\<close>: the same statements, with
  \<^verbatim>\<open>msg->getLength()\<close> and \<^verbatim>\<open>msg->getBuffer()\<close>, which are the inherited members
  applied to the base-class subobject of the message pointed to (again another object
  than the one appended to).
\<close>

definition append_ptr :: "OutputMessage \<Rightarrow> OutputMessage \<Rightarrow> fault + OutputMessage" where
  "append_ptr msg om =
     (let msgLen = getLength (base msg);
          pos = position (info (base om))
      in if length (getBuffer (base msg)) < unat INITIAL_BUFFER_POSITION + unat msgLen
            \<or> length (buffer (base om)) < unat pos + unat msgLen
         then Inl OutOfBounds
         else Inr (om\<lparr>base := (base om)
                \<lparr>buffer := write_at (unat pos)
                     (read_at (unat INITIAL_BUFFER_POSITION) (unat msgLen) (getBuffer (base msg)))
                     (buffer (base om)),
                 info := (info (base om))
                   \<lparr>length_msg := length_msg (info (base om)) + msgLen,
                    position := pos + msgLen\<rparr>\<rparr>\<rparr>))"

subsection \<open>Sequences of calls on an OutputMessage\<close>

text \<open>The member functions of an \<^verbatim>\<open>OutputMessage\<close> that the two headers define, as
  operations; \<open>BaseCall f\<close> is a call of any other member function of \<^verbatim>\<open>NetworkMessage\<close>
  (\<^verbatim>\<open>addByte\<close>, \<^verbatim>\<open>addString\<close>, \<^verbatim>\<open>setBufferPosition\<close>, ...), which changes the
  base-class subobject in some way \<open>f\<close>. \<open>run\<close> performs a sequence of operations and
  stops at undefined behaviour.\<close>

datatype output_op =
    Reset
  | Get nat "byte list"
  | Add "byte list"
  | AddPaddingBytes nat
  | BaseCall "NetworkMessage \<Rightarrow> NetworkMessage"
  | WritePaddingAmount
  | WriteMessageLength
  | AddCryptoHeader bool "32 word"
  | Append NetworkMessage
  | AppendPtr OutputMessage

fun apply_op ::
  "(NetworkMessage \<Rightarrow> int \<Rightarrow> bool) \<Rightarrow> (NetworkMessage \<Rightarrow> nat \<Rightarrow> bool)
     \<Rightarrow> (nat \<Rightarrow> NetworkMessage \<Rightarrow> NetworkMessage)
     \<Rightarrow> output_op \<Rightarrow> OutputMessage \<Rightarrow> fault + OutputMessage" where
  "apply_op can_read can_add add_padding_bytes Reset om = Inr (om\<lparr>base := reset (base om)\<rparr>)"
| "apply_op can_read can_add add_padding_bytes (Get sizeof_T T_init) om =
     (case get can_read sizeof_T T_init (base om) of
        Inl e \<Rightarrow> Inl e
      | Inr (v, m) \<Rightarrow> Inr (om\<lparr>base := m\<rparr>))"
| "apply_op can_read can_add add_padding_bytes (Add val) om =
     Inr (om\<lparr>base := snd (add can_add val (base om))\<rparr>)"
| "apply_op can_read can_add add_padding_bytes (AddPaddingBytes n) om =
     Inr (om\<lparr>base := add_padding_bytes n (base om)\<rparr>)"
| "apply_op can_read can_add add_padding_bytes (BaseCall f) om = Inr (om\<lparr>base := f (base om)\<rparr>)"
| "apply_op can_read can_add add_padding_bytes WritePaddingAmount om =
     map_sum id snd (writePaddingAmount add_padding_bytes om)"
| "apply_op can_read can_add add_padding_bytes WriteMessageLength om =
     map_sum id snd (writeMessageLength om)"
| "apply_op can_read can_add add_padding_bytes (AddCryptoHeader addChecksum checksum) om =
     map_sum id snd (addCryptoHeader addChecksum checksum om)"
| "apply_op can_read can_add add_padding_bytes (Append msg) om = append_msg msg om"
| "apply_op can_read can_add add_padding_bytes (AppendPtr msg) om = append_ptr msg om"

fun run ::
  "(NetworkMessage \<Rightarrow> int \<Rightarrow> bool) \<Rightarrow> (NetworkMessage \<Rightarrow> nat \<Rightarrow> bool)
     \<Rightarrow> (nat \<Rightarrow> NetworkMessage \<Rightarrow> NetworkMessage)
     \<Rightarrow> output_op list \<Rightarrow> OutputMessage \<Rightarrow> fault + OutputMessage" where
  "run can_read can_add add_padding_bytes [] om = Inr om"
| "run can_read can_add add_padding_bytes (x # xs) om =
     (case apply_op can_read can_add add_padding_bytes x om of
        Inl e \<Rightarrow> Inl e
      | Inr om' \<Rightarrow> run can_read can_add add_padding_bytes xs om')"

text \<open>The sizes of the headers an operation asks \<^verbatim>\<open>add_header\<close> to prepend, in the
  order of the calls, and the cursor after such requests: a header that fits moves the
  cursor down by its size, one that does not fit leaves it where it is.\<close>

fun header_sizes :: "output_op \<Rightarrow> nat list" where
  "header_sizes WritePaddingAmount = [1]"
| "header_sizes WriteMessageLength = [2]"
| "header_sizes (AddCryptoHeader addChecksum checksum) = (if addChecksum then [4, 2] else [2])"
| "header_sizes _ = []"

fun cursor_after :: "nat \<Rightarrow> nat list \<Rightarrow> nat" where
  "cursor_after c [] = c"
| "cursor_after c (n # ns) = cursor_after (if c < n then c else c - n) ns"

subsection \<open>The helpers whose bodies are missing\<close>

text \<open>
  Modelled from the spec: the body of \<^verbatim>\<open>NetworkMessage::canAdd\<close> is missing. The
  spec's contract for writes: "each write checks \<open>capacity - position \<ge> requiredSize\<close>".
\<close>

definition canAdd :: "NetworkMessage \<Rightarrow> nat \<Rightarrow> bool" where
  "canAdd m sz = (int sz \<le> int (length (buffer m)) - int (unat (position (info m))))"

text \<open>
  Modelled from the spec: the body of \<^verbatim>\<open>NetworkMessage::canRead\<close> is missing. The
  spec's contract for reads: "each primitive read first checks
  \<open>capacity - position \<ge> requiredSize\<close>".
\<close>

definition canRead :: "NetworkMessage \<Rightarrow> int \<Rightarrow> bool" where
  "canRead m sz = (sz \<le> int (length (buffer m)) - int (unat (position (info m))))"

text \<open>
  Modelled from the spec: the body of \<^verbatim>\<open>NetworkMessage::addPaddingBytes\<close> is missing.
  The spec: "append \<open>padding\<close> filler bytes to the payload", under the contract for
  writes: "on overflow, it logs and performs no mutation". The value of the filler
  byte is not given: it is the parameter \<open>filler\<close>.
\<close>

definition addPaddingBytes :: "byte \<Rightarrow> nat \<Rightarrow> NetworkMessage \<Rightarrow> NetworkMessage" where
  "addPaddingBytes filler n m =
     (if \<not> canAdd m n then m
      else m\<lparr>buffer := write_at (unat (position (info m))) (replicate n filler) (buffer m),
             info := (info m)\<lparr>position := position (info m) + of_nat n,
                              length_msg := length_msg (info m) + of_nat n\<rparr>\<rparr>)"

subsection \<open>Example messages\<close>

text \<open>A message of capacity 16 whose cursor is one byte before the end of the array,
  after a payload of 8 bytes.\<close>

definition short_msg :: NetworkMessage where
  "short_msg = \<lparr>info = \<lparr>length_msg = 8, position = 15, overrun = False\<rparr>,
                buffer = replicate 16 0\<rparr>"

text \<open>A message of capacity 16 whose cursor is at the end of the array.\<close>

definition end_msg :: NetworkMessage where
  "end_msg = \<lparr>info = \<lparr>length_msg = 9, position = 16, overrun = False\<rparr>,
              buffer = replicate 16 0\<rparr>"

text \<open>The payload "PING".\<close>

definition ping :: "byte list" where
  "ping = [0x50, 0x49, 0x4E, 0x47]"

text \<open>A message of capacity 16 after \<^verbatim>\<open>add<uint32_t>(0xDEADBEEF)\<close>, and the same
  message with the cursor put back to the start of the payload.\<close>

definition written_msg :: NetworkMessage where
  "written_msg = snd (add canAdd (bytes_of_u32 0xDEADBEEF) (NetworkMessage_new 16))"

definition reread_msg :: NetworkMessage where
  "reread_msg = written_msg\<lparr>info := (info written_msg)\<lparr>position := INITIAL_BUFFER_POSITION\<rparr>\<rparr>"

text \<open>An output message of capacity 24 after the payload "PING" was written, the same
  after \<^verbatim>\<open>writePaddingAmount()\<close> with filler byte 0x33, and the sequence of calls that
  writes the payload and finalises it with a checksum, with the message it leaves.\<close>

definition ping_msg :: OutputMessage where
  "ping_msg = (OutputMessage_new 24)\<lparr>base := snd (add canAdd ping (NetworkMessage_new 24))\<rparr>"

definition padded_ping_msg :: OutputMessage where
  "padded_ping_msg = snd (projr (writePaddingAmount (addPaddingBytes 0x33) ping_msg))"

definition finalize_ops :: "output_op list" where
  "finalize_ops = [Add ping, WritePaddingAmount, AddCryptoHeader True 0x12345678]"

definition finalized_msg :: OutputMessage where
  "finalized_msg =
     \<lparr>base = \<lparr>info = \<lparr>length_msg = 14, position = 14, overrun = False\<rparr>,
              buffer = [1, 0, 0x78, 0x56, 0x34, 0x12, 3, 0x50, 0x49, 0x4E, 0x47, 0x33, 0x33, 0x33]
                       @ replicate 10 0\<rparr>,
      outputBufferStart = 0\<rparr>"

section \<open>Properties\<close>

subsection \<open>Copying bytes into and out of the buffer\<close>

lemma length_write_at:
  "p + length bytes \<le> length buf \<Longrightarrow> length (write_at p bytes buf) = length buf"
  by (simp add: write_at_def)

lemma read_at_write_at:
  "p + length bytes \<le> length buf \<Longrightarrow> read_at p (length bytes) (write_at p bytes buf) = bytes"
  by (simp add: write_at_def read_at_def)

lemma take_write_at:
  "p \<le> length buf \<Longrightarrow> take p (write_at p bytes buf) = take p buf"
  by (simp add: write_at_def)

lemma drop_write_at:
  "p + length bytes \<le> length buf \<Longrightarrow>
   drop (p + length bytes) (write_at p bytes buf) = drop (p + length bytes) buf"
  by (simp add: write_at_def)

lemma length_read_at:
  "p + n \<le> length buf \<Longrightarrow> length (read_at p n buf) = n"
  by (simp add: read_at_def)

lemma nth_write_at_inside:
  "i < length bytes \<Longrightarrow> p \<le> length buf \<Longrightarrow> write_at p bytes buf ! (p + i) = bytes ! i"
  by (simp add: write_at_def nth_append)

lemma write_at_adjacent:
  "p + length a + length b \<le> length buf \<Longrightarrow>
   write_at p a (write_at (p + length a) b buf) = write_at p (a @ b) buf"
  by (simp add: write_at_def add.assoc)

subsection \<open>Arithmetic of the 16-bit counters\<close>

lemma unat_add_of_nat_16:
  "unat (w :: 16 word) + n < 2 ^ 16 \<Longrightarrow> unat (w + of_nat n) = unat w + n"
  by (simp add: unat_word_ariths unat_of_nat)

lemma unat_add_16:
  "unat (v :: 16 word) + unat (w :: 16 word) < 2 ^ 16 \<Longrightarrow> unat (v + w) = unat v + unat w"
  by (simp add: unat_word_ariths)

subsection \<open>Object representations\<close>

text \<open>\<^verbatim>\<open>std::bit_cast\<close> to the byte array and back gives the value again.\<close>

lemma u16_of_bytes_of_u16: "u16_of_bytes (bytes_of_u16 v) = v"
proof (rule bit_word_eqI)
  fix n assume n: "n < LENGTH(16)"
  show "bit (u16_of_bytes (bytes_of_u16 v)) n = bit v n"
  proof (cases "n < 8")
    case True
    then show ?thesis by (simp add: bytes_of_u16_def bit_simps; arith?)
  next
    case False
    then show ?thesis using n by (simp add: bytes_of_u16_def bit_simps; arith?)
  qed
qed

lemma u32_of_bytes_of_u32: "u32_of_bytes (bytes_of_u32 v) = v"
proof (rule bit_word_eqI)
  fix n assume n: "n < LENGTH(32)"
  consider "n < 8" | "8 \<le> n" "n < 16" | "16 \<le> n" "n < 24" | "24 \<le> n" by linarith
  then show "bit (u32_of_bytes (bytes_of_u32 v)) n = bit v n"
  proof cases
    case 1
    then show ?thesis by (simp add: bytes_of_u32_def bit_simps; arith?)
  next
    case 2
    then show ?thesis by (simp add: bytes_of_u32_def bit_simps; arith?)
  next
    case 3
    then show ?thesis by (simp add: bytes_of_u32_def bit_simps; arith?)
  next
    case 4
    then show ?thesis using n by (simp add: bytes_of_u32_def bit_simps; arith?)
  qed
qed

lemma replicate_2: "replicate 2 x = [x, x]"
  by (simp add: numeral_eq_Suc)

lemma replicate_3: "replicate 3 x = [x, x, x]"
  by (simp add: numeral_eq_Suc)

lemma replicate_4: "replicate 4 x = [x, x, x, x]"
  by (simp add: numeral_eq_Suc)

text \<open>The value \<^verbatim>\<open>T()\<close> of an unsigned integer type: all bytes zero.\<close>

lemma zero_bytes_are_zero:
  "u16_of_bytes (replicate 2 0) = 0" "u32_of_bytes (replicate 4 0) = 0"
  by (simp_all add: replicate_2 replicate_4)

subsection \<open>The generic writer and reader\<close>

lemma add_accepted:
  assumes "can_add m (length val)"
    and "unat (position (info m)) + length val \<le> length (buffer m)"
  shows "add can_add val m =
     ([Trace_add],
      m\<lparr>buffer := write_at (unat (position (info m))) val (buffer m),
        info := (info m)\<lparr>position := position (info m) + of_nat (length val),
                         length_msg := length_msg (info m) + of_nat (length val)\<rparr>\<rparr>)"
  using assms by (auto simp: add_def)

lemma length_bytes_of [simp]:
  "length (bytes_of_u8 a) = 1" "length (bytes_of_u16 b) = 2" "length (bytes_of_u32 c) = 4"
  by (simp_all add: bytes_of_u8_def bytes_of_u16_def bytes_of_u32_def)

subsection \<open>Padding and block count\<close>

lemma uint_byte_of_int: "uint (word_of_int k :: byte) = k mod 256"
  using uint_word_of_int [where 'a = 8, of k] by simp

lemma unat_paddingAmount: "unat (paddingAmount len) = 8 - unat len mod 8 - 1"
proof -
  have r: "0 \<le> uint len mod 8" "uint len mod 8 < 8"
    by simp_all
  have "uint (paddingAmount len) = (8 - uint len mod 8 - 1) mod 256"
    unfolding paddingAmount_def by (rule uint_byte_of_int)
  also have "\<dots> = 8 - uint len mod 8 - 1"
    using r by simp
  finally have a: "uint (paddingAmount len) = 7 - uint len mod 8"
    by simp
  have b: "uint len mod 8 = int (unat len mod 8)"
    by (simp add: zmod_int)
  have "int (unat (paddingAmount len)) = 7 - int (unat len mod 8)"
    using a b by simp
  then show ?thesis
    by linarith
qed

lemma padding_aligns: "(1 + (8 - L mod 8 - 1) + L) mod 8 = (0 :: nat)"
proof -
  have "L mod 8 < 8"
    by simp
  then have "1 + (8 - L mod 8 - 1) + L = 8 + (L - L mod 8)"
    using mod_less_eq_dividend [of L 8] by linarith
  also have "\<dots> mod 8 = 0"
    by (simp add: mod_simps minus_mod_eq_mult_div)
  finally show ?thesis .
qed

lemma mod8_add_16: "unat ((a :: 16 word) + of_nat n) mod 8 = (unat a + n) mod 8"
proof -
  have "unat (a + of_nat n) = (unat a + n) mod 2 ^ 16"
    by (simp add: unat_word_ariths unat_of_nat mod_simps)
  moreover have "(8 :: nat) dvd 2 ^ 16"
    by simp
  ultimately show ?thesis
    by (simp add: mod_mod_cancel)
qed

lemma c_div_8: "c_div a 8 = (if 0 \<le> a then a div 8 else - ((- a) div 8))"
  by (simp add: c_div_def sgn_if)

lemma blockLength_ge4:
  assumes "4 \<le> unat len"
  shows "unat (blockLength len) = (unat len - 4) div 8"
proof -
  have "int (unat len - 4) = int (unat len) - 4"
    using assms by (simp add: of_nat_diff)
  also have "\<dots> = uint len - 4"
    by simp
  finally have "uint len - 4 = int (unat len - 4)"
    by simp
  then have "c_div (uint len - 4) 8 = int ((unat len - 4) div 8)"
    by (simp add: c_div_8 zdiv_int)
  then have "blockLength len = of_nat ((unat len - 4) div 8)"
    by (simp add: blockLength_def)
  moreover have "(unat len - 4) div 8 < 2 ^ 16"
    using unsigned_less [of len, where 'a = nat] by simp
  ultimately show ?thesis
    by (simp add: unat_of_nat)
qed

lemma blockLength_lt4:
  assumes "unat len < 4"
  shows "blockLength len = 0"
proof -
  have "int (unat len) < int 4"
    using assms by (simp only: of_nat_less_iff)
  then have lt: "uint len < 4"
    by simp
  moreover have "0 \<le> uint len"
    by simp
  ultimately have "(4 - uint len) div 8 = 0"
    by arith
  then have "c_div (uint len - 4) 8 = 0"
    using lt by (simp add: c_div_8)
  then show ?thesis
    by (simp add: blockLength_def)
qed

subsection \<open>Prepending a header\<close>

lemma unat_sub_of_nat_16:
  assumes "n \<le> unat (w :: 16 word)"
  shows "unat (w - of_nat n) = unat w - n"
proof -
  have "n < 2 ^ 16"
    using assms unsigned_less [of w, where 'a = nat] by simp
  then have n: "unat (of_nat n :: 16 word) = n"
    by (simp add: unat_of_nat)
  then have "of_nat n \<le> w"
    using assms by (simp add: word_le_nat_alt)
  then have "unat (w - of_nat n) = unat w - unat (of_nat n :: 16 word)"
    by (rule unat_sub)
  then show ?thesis
    using n by simp
qed

lemma add_header_accepted:
  assumes "length hdr \<le> unat (outputBufferStart om)"
    and "unat (outputBufferStart om) \<le> length (buffer (base om))"
  shows "add_header hdr om = Inr ([],
        om\<lparr>outputBufferStart := outputBufferStart om - of_nat (length hdr),
           base := (base om)
             \<lparr>buffer := write_at (unat (outputBufferStart om - of_nat (length hdr)))
                          hdr (buffer (base om)),
              info := (info (base om))
                \<lparr>length_msg := length_msg (info (base om)) + of_nat (length hdr)\<rparr>\<rparr>\<rparr>)"
  using assms by (simp add: add_header_def)

lemma add_header_rejected:
  assumes "unat (outputBufferStart om) < length hdr"
  shows "add_header hdr om = Inr ([Error_InsufficientHeaderSpace], om)"
  using assms by (simp add: add_header_def)

lemma writeMessageLength_accepted:
  assumes "2 \<le> unat (outputBufferStart om)"
    and "unat (outputBufferStart om) \<le> length (buffer (base om))"
  shows "writeMessageLength om = Inr ([],
        om\<lparr>outputBufferStart := outputBufferStart om - 2,
           base := (base om)
             \<lparr>buffer := write_at (unat (outputBufferStart om) - 2)
                          (bytes_of_u16 (blockLength (length_msg (info (base om)))))
                          (buffer (base om)),
              info := (info (base om))
                \<lparr>length_msg := length_msg (info (base om)) + 2\<rparr>\<rparr>\<rparr>)"
proof -
  have "unat (outputBufferStart om - of_nat 2) = unat (outputBufferStart om) - 2"
    using assms(1) by (rule unat_sub_of_nat_16)
  then show ?thesis
    unfolding writeMessageLength_def
    using add_header_accepted [of "bytes_of_u16 (blockLength (length_msg (info (base om))))" om]
      assms
    by simp
qed

subsection \<open>The header cursor\<close>

lemma cursor_after_le: "cursor_after c ns \<le> c"
proof (induction ns arbitrary: c)
  case Nil
  then show ?case
    by simp
next
  case (Cons n ns)
  have "cursor_after (if c < n then c else c - n) ns \<le> (if c < n then c else c - n)"
    by (rule Cons.IH)
  then show ?case
    by (simp split: if_splits)
qed

lemma cursor_after_append:
  "cursor_after c (a @ b) = cursor_after (cursor_after c a) b"
  by (induction a arbitrary: c) simp_all

lemma add_header_cursor:
  assumes "add_header hdr om = Inr (lg, om')"
  shows "unat (outputBufferStart om') = cursor_after (unat (outputBufferStart om)) [length hdr]"
proof (cases "unat (outputBufferStart om) < length hdr")
  case True
  then show ?thesis
    using assms by (simp add: add_header_def)
next
  case False
  then have "unat (outputBufferStart om - of_nat (length hdr))
      = unat (outputBufferStart om) - length hdr"
    by (intro unat_sub_of_nat_16) simp
  then show ?thesis
    using assms False by (auto simp: add_header_def split: if_splits)
qed

lemma writePaddingAmount_cursor:
  assumes "writePaddingAmount apb om = Inr (lg, om')"
  shows "unat (outputBufferStart om') = cursor_after (unat (outputBufferStart om)) [1]"
proof -
  let ?p = "paddingAmount (length_msg (info (base om)))"
  have "add_header (bytes_of_u8 ?p) (om\<lparr>base := apb (unat ?p) (base om)\<rparr>) = Inr (lg, om')"
    using assms by (simp add: writePaddingAmount_def Let_def)
  from add_header_cursor [OF this] show ?thesis
    by simp
qed

lemma writeMessageLength_cursor:
  assumes "writeMessageLength om = Inr (lg, om')"
  shows "unat (outputBufferStart om') = cursor_after (unat (outputBufferStart om)) [2]"
proof -
  have "add_header (bytes_of_u16 (blockLength (length_msg (info (base om))))) om = Inr (lg, om')"
    using assms by (simp add: writeMessageLength_def)
  from add_header_cursor [OF this] show ?thesis
    by simp
qed

lemma addCryptoHeader_cursor:
  assumes "addCryptoHeader addChecksum checksum om = Inr (lg, om')"
  shows "unat (outputBufferStart om')
           = cursor_after (unat (outputBufferStart om)) (if addChecksum then [4, 2] else [2])"
proof (cases addChecksum)
  case False
  then obtain lg2 where "writeMessageLength om = Inr (lg2, om')"
    using assms
    by (auto simp: addCryptoHeader_def and_then_def split: sum.splits prod.splits)
  from writeMessageLength_cursor [OF this] show ?thesis
    using False by simp
next
  case True
  then obtain lg1 om1 lg2 where
    a: "add_header (bytes_of_u32 checksum) om = Inr (lg1, om1)"
    and b: "writeMessageLength om1 = Inr (lg2, om')"
    using assms
    by (auto simp: addCryptoHeader_def and_then_def split: sum.splits prod.splits)
  have "unat (outputBufferStart om')
          = cursor_after (cursor_after (unat (outputBufferStart om)) [4]) [2]"
    using add_header_cursor [OF a] writeMessageLength_cursor [OF b] by simp
  then show ?thesis
    using True by (simp only: cursor_after_append [symmetric] append.simps if_True)
qed

lemma append_msg_cursor:
  assumes "append_msg msg om = Inr om'"
  shows "outputBufferStart om' = outputBufferStart om"
  using assms by (auto simp: append_msg_def Let_def split: if_splits)

lemma append_ptr_cursor:
  assumes "append_ptr msg om = Inr om'"
  shows "outputBufferStart om' = outputBufferStart om"
  using assms by (auto simp: append_ptr_def Let_def split: if_splits)

lemma apply_op_cursor:
  assumes "apply_op can_read can_add apb x om = Inr om'"
  shows "unat (outputBufferStart om') = cursor_after (unat (outputBufferStart om)) (header_sizes x)"
proof (cases x)
  case Reset
  then show ?thesis
    using assms by auto
next
  case (Get sizeof_T T_init)
  then show ?thesis
    using assms by (auto split: sum.splits)
next
  case (Add val)
  then show ?thesis
    using assms by auto
next
  case (AddPaddingBytes n)
  then show ?thesis
    using assms by auto
next
  case (BaseCall f)
  then show ?thesis
    using assms by auto
next
  case WritePaddingAmount
  then obtain lg where "writePaddingAmount apb om = Inr (lg, om')"
    using assms by (cases "writePaddingAmount apb om") auto
  from writePaddingAmount_cursor [OF this] show ?thesis
    using WritePaddingAmount by simp
next
  case WriteMessageLength
  then obtain lg where "writeMessageLength om = Inr (lg, om')"
    using assms by (cases "writeMessageLength om") auto
  from writeMessageLength_cursor [OF this] show ?thesis
    using WriteMessageLength by simp
next
  case (AddCryptoHeader addChecksum checksum)
  then obtain lg where "addCryptoHeader addChecksum checksum om = Inr (lg, om')"
    using assms by (cases "addCryptoHeader addChecksum checksum om") auto
  from addCryptoHeader_cursor [OF this] show ?thesis
    using AddCryptoHeader by simp
next
  case (Append msg)
  then show ?thesis
    using assms append_msg_cursor by simp
next
  case (AppendPtr msg)
  then show ?thesis
    using assms append_ptr_cursor by simp
qed

lemma run_cursor:
  "run can_read can_add apb xs om = Inr om' \<Longrightarrow>
   unat (outputBufferStart om')
     = cursor_after (unat (outputBufferStart om)) (concat (map header_sizes xs))"
proof (induction xs arbitrary: om)
  case Nil
  then show ?case
    by simp
next
  case (Cons x xs)
  then obtain om1 where s: "apply_op can_read can_add apb x om = Inr om1"
    and r: "run can_read can_add apb xs om1 = Inr om'"
    by (auto split: sum.splits)
  have "unat (outputBufferStart om')
          = cursor_after (unat (outputBufferStart om1)) (concat (map header_sizes xs))"
    using Cons.IH [OF r] .
  then show ?case
    using apply_op_cursor [OF s] by (simp add: cursor_after_append)
qed

subsection \<open>The frame of a four-byte payload\<close>

lemma paddingAmount_4: "paddingAmount 4 = 3"
  by (simp add: paddingAmount_def)

lemma blockLength_8: "blockLength 8 = 0"
  by (simp add: blockLength_def c_div_def)

lemma frame_after_headers:
  assumes "14 \<le> length buf"
  shows "take 10 (drop 4 (write_at 4 (bytes_of_u16 b) (write_at 6 (bytes_of_u8 p) buf)))
         = bytes_of_u16 b @ bytes_of_u8 p @ read_at 7 7 buf"
proof -
  have "write_at 4 (bytes_of_u16 b) (write_at (4 + length (bytes_of_u16 b)) (bytes_of_u8 p) buf)
        = write_at 4 (bytes_of_u16 b @ bytes_of_u8 p) buf"
    by (rule write_at_adjacent) (use assms in simp)
  then have "write_at 4 (bytes_of_u16 b) (write_at 6 (bytes_of_u8 p) buf)
        = write_at 4 (bytes_of_u16 b @ bytes_of_u8 p) buf"
    by simp
  then show ?thesis
    using assms by (simp add: write_at_def read_at_def)
qed

subsection \<open>The example messages, evaluated\<close>

lemma new_eval:
  "info (NetworkMessage_new n) = \<lparr>length_msg = 0, position = 7, overrun = False\<rparr>"
  "buffer (NetworkMessage_new n) = replicate n 0"
  by (simp_all add: NetworkMessage_new_def NetworkMessageInfo_default_def
        INITIAL_BUFFER_POSITION_def)

lemma written_msg_eval:
  "written_msg = \<lparr>info = \<lparr>length_msg = 4, position = 11, overrun = False\<rparr>,
       buffer = replicate 7 0 @ bytes_of_u32 0xDEADBEEF @ replicate 5 0\<rparr>"
  by (simp add: written_msg_def add_def canAdd_def NetworkMessage_new_def
        NetworkMessageInfo_default_def INITIAL_BUFFER_POSITION_def write_at_def)

lemma ping_msg_eval:
  "ping_msg = \<lparr>base = \<lparr>info = \<lparr>length_msg = 4, position = 11, overrun = False\<rparr>,
       buffer = replicate 7 0 @ ping @ replicate 13 0\<rparr>, outputBufferStart = 7\<rparr>"
  by (simp add: ping_msg_def OutputMessage_new_def add_def canAdd_def NetworkMessage_new_def
        NetworkMessageInfo_default_def INITIAL_BUFFER_POSITION_def write_at_def ping_def)

lemma reset_short_msg_eval:
  "reset short_msg = \<lparr>info = \<lparr>length_msg = 0, position = 7, overrun = False\<rparr>,
       buffer = replicate 16 0\<rparr>"
  by (simp add: reset_def short_msg_def NetworkMessageInfo_default_def
        INITIAL_BUFFER_POSITION_def)

lemma padded_ping_eval:
  "addPaddingBytes f 3 (base ping_msg)
     = \<lparr>info = \<lparr>length_msg = 7, position = 14, overrun = False\<rparr>,
        buffer = replicate 7 0 @ ping @ [f, f, f] @ replicate 10 0\<rparr>"
  by (simp add: addPaddingBytes_def canAdd_def ping_msg_eval write_at_def ping_def replicate_3)

lemma padded_ping_msg_eval:
  "padded_ping_msg = \<lparr>base = \<lparr>info = \<lparr>length_msg = 8, position = 14, overrun = False\<rparr>,
       buffer = replicate 6 0 @ [3] @ ping @ [0x33, 0x33, 0x33] @ replicate 10 0\<rparr>,
     outputBufferStart = 6\<rparr>"
proof -
  have L: "length_msg (info (base ping_msg)) = 4"
    by (simp add: ping_msg_eval)
  have s: "outputBufferStart ping_msg = 7"
    by (simp add: ping_msg_eval)
  show ?thesis
    unfolding padded_ping_msg_def writePaddingAmount_def Let_def L paddingAmount_4
    by (simp add: padded_ping_eval add_header_def s bytes_of_u8_def write_at_def ping_def)
qed

lemma finalize_step1: "apply_op canRead canAdd (addPaddingBytes 0x33) (Add ping) (OutputMessage_new 24)
    = Inr ping_msg"
  by (simp add: ping_msg_def OutputMessage_new_def)

lemma blockLength_12: "blockLength 12 = 1"
  by (simp add: blockLength_def c_div_def)

lemma finalize_step2: "apply_op canRead canAdd (addPaddingBytes 0x33) WritePaddingAmount ping_msg
    = Inr \<lparr>base = \<lparr>info = \<lparr>length_msg = 8, position = 14, overrun = False\<rparr>,
       buffer = replicate 6 0 @ [3] @ ping @ [0x33, 0x33, 0x33] @ replicate 10 0\<rparr>,
     outputBufferStart = 6\<rparr>"
  by (simp add: writePaddingAmount_def ping_msg_eval paddingAmount_4 addPaddingBytes_def
        canAdd_def write_at_def ping_def replicate_3 add_header_def bytes_of_u8_def)

lemma finalize_step3: "apply_op canRead canAdd (addPaddingBytes 0x33) (AddCryptoHeader True 0x12345678)
     \<lparr>base = \<lparr>info = \<lparr>length_msg = 8, position = 14, overrun = False\<rparr>,
       buffer = replicate 6 0 @ [3] @ ping @ [0x33, 0x33, 0x33] @ replicate 10 0\<rparr>,
     outputBufferStart = 6\<rparr>
    = Inr finalized_msg"
  by (simp add: addCryptoHeader_def and_then_def add_header_def writeMessageLength_def
        write_at_def ping_def blockLength_12 bytes_of_u16_def bytes_of_u32_def finalized_msg_def)

lemma run_finalize:
  "run canRead canAdd (addPaddingBytes 0x33) finalize_ops (OutputMessage_new 24) = Inr finalized_msg"
  unfolding finalize_ops_def
  by (simp only: run.simps finalize_step1 finalize_step2 finalize_step3 sum.case)

subsection \<open>Reads that do not fit\<close>

lemma canRead_refuses:
  assumes "length (buffer m) - unat (position (info m)) < n"
  shows "\<not> canRead m (int n)"
proof -
  have "int (length (buffer m)) - int (unat (position (info m))) < int n"
    using assms by linarith
  then show ?thesis
    unfolding canRead_def by linarith
qed

lemma get_refused:
  assumes "\<not> can_read m (int sizeof_T)"
  shows "get can_read sizeof_T T_init m = Inr (T_init, m)"
  using assms by (simp add: get_def)

subsection \<open>The claims\<close>

text \<open>
  C1 (as amended). On a message with fewer than \<^verbatim>\<open>sizeof(T)\<close> bytes between the read
  position and the end of the buffer, so that \<^verbatim>\<open>canRead(sizeof(T))\<close> is false,
  \<^verbatim>\<open>get<T>\<close> returns the value-initialised \<^verbatim>\<open>T()\<close> without touching the buffer (no
  access, so none out of range) and leaves the message exactly as it was: the position
  is not advanced, and the overrun flag keeps its value; \<^verbatim>\<open>get\<close> does not set it.
  \<^verbatim>\<open>T()\<close> is zero for \<^verbatim>\<open>uint8_t\<close>, \<^verbatim>\<open>uint16_t\<close> and \<^verbatim>\<open>uint32_t\<close>. The first part
  holds for whatever \<^verbatim>\<open>canRead\<close> computes, whenever it answers false; the others are
  for the check the spec gives it.
\<close>

theorem C1_get_short_read:
  "(\<not> can_read m (int sizeof_T) \<longrightarrow>
      get can_read sizeof_T T_init m = Inr (T_init, m)) \<and>
   (length (buffer m) - unat (position (info m)) < sizeof_T \<longrightarrow>
      get canRead sizeof_T T_init m = Inr (T_init, m)) \<and>
   (length (buffer m) - unat (position (info m)) < 1 \<longrightarrow>
      get_u8 canRead m = Inr (0, m)) \<and>
   (length (buffer m) - unat (position (info m)) < 2 \<longrightarrow>
      get_u16 canRead m = Inr (0, m)) \<and>
   (length (buffer m) - unat (position (info m)) < 4 \<longrightarrow>
      get_u32 canRead m = Inr (0, m))"
proof (intro conjI impI)
  assume "\<not> can_read m (int sizeof_T)"
  then show "get can_read sizeof_T T_init m = Inr (T_init, m)"
    by (rule get_refused)
next
  assume "length (buffer m) - unat (position (info m)) < sizeof_T"
  then have "\<not> canRead m (int sizeof_T)"
    by (rule canRead_refuses)
  then show "get canRead sizeof_T T_init m = Inr (T_init, m)"
    by (rule get_refused)
next
  assume "length (buffer m) - unat (position (info m)) < 1"
  then have "\<not> canRead m (int 1)"
    by (rule canRead_refuses)
  then have "get canRead 1 (bytes_of_u8 0) m = Inr (bytes_of_u8 0, m)"
    by (rule get_refused)
  then show "get_u8 canRead m = Inr (0, m)"
    by (simp add: get_u8_def bytes_of_u8_def)
next
  assume "length (buffer m) - unat (position (info m)) < 2"
  then have "\<not> canRead m (int 2)"
    by (rule canRead_refuses)
  then have "get canRead 2 (bytes_of_u16 0) m = Inr (bytes_of_u16 0, m)"
    by (rule get_refused)
  then show "get_u16 canRead m = Inr (0, m)"
    by (simp add: get_u16_def u16_of_bytes_of_u16)
next
  assume "length (buffer m) - unat (position (info m)) < 4"
  then have "\<not> canRead m (int 4)"
    by (rule canRead_refuses)
  then have "get canRead 4 (bytes_of_u32 0) m = Inr (bytes_of_u32 0, m)"
    by (rule get_refused)
  then show "get_u32 canRead m = Inr (0, m)"
    by (simp add: get_u32_def u32_of_bytes_of_u32)
qed

text \<open>Reads of two and of four bytes from \<open>short_msg\<close>, whose cursor is one byte before the
  end, and a read of one byte from \<open>end_msg\<close>, whose cursor is at the end.\<close>

theorem C1_get_short_read_witness:
  "\<not> canRead short_msg (int 2) \<and>
   length (buffer short_msg) - unat (position (info short_msg)) < 2 \<and>
   length (buffer short_msg) - unat (position (info short_msg)) < 4 \<and>
   length (buffer end_msg) - unat (position (info end_msg)) < 1 \<and>
   get canRead 2 (bytes_of_u16 0) short_msg = Inr (bytes_of_u16 0, short_msg) \<and>
   get_u16 canRead short_msg = Inr (0, short_msg) \<and>
   get_u32 canRead short_msg = Inr (0, short_msg) \<and>
   get_u8 canRead end_msg = Inr (0, end_msg)"
proof -
  have h: "\<not> canRead short_msg (int 2)"
    by (simp add: canRead_def short_msg_def)
  have s2: "length (buffer short_msg) - unat (position (info short_msg)) < 2"
    by (simp add: short_msg_def)
  have s4: "length (buffer short_msg) - unat (position (info short_msg)) < 4"
    by (simp add: short_msg_def)
  have e1: "length (buffer end_msg) - unat (position (info end_msg)) < 1"
    by (simp add: end_msg_def)
  note t = C1_get_short_read [where can_read = canRead and m = short_msg and sizeof_T = 2
      and T_init = "bytes_of_u16 0"]
  note u = C1_get_short_read [where can_read = canRead and m = end_msg and sizeof_T = 1
      and T_init = "bytes_of_u8 0"]
  have a: "get canRead 2 (bytes_of_u16 0) short_msg = Inr (bytes_of_u16 0, short_msg)"
    using t h by simp
  have b: "get_u16 canRead short_msg = Inr (0, short_msg)"
    using t s2 by blast
  have c: "get_u32 canRead short_msg = Inr (0, short_msg)"
    using t s4 by blast
  have d: "get_u8 canRead end_msg = Inr (0, end_msg)"
    using u e1 by blast
  show ?thesis
    using h s2 s4 e1 a b c d by (intro conjI)
qed

text \<open>
  C1 as stated fails twice. A two-byte read one byte before the end of the array returns
  zero, and the overrun flag is still clear afterwards. And the value returned is not
  zero for every trivially copyable \<open>T\<close>: for \<^verbatim>\<open>WithInit\<close>, the refused read returns the
  representation of \<^verbatim>\<open>WithInit()\<close>, whose first byte is 7.
\<close>

theorem C1_overrun_not_set:
  "\<not> canRead short_msg (int 2) \<and>
   get canRead 2 (bytes_of_u16 0) short_msg = Inr ([0, 0], short_msg) \<and>
   overrun (info short_msg) = False \<and>
   \<not> canRead short_msg (int 4) \<and>
   get canRead 4 WithInit_init short_msg = Inr ([7, 0, 0, 0], short_msg)"
  by (simp add: get_def canRead_def short_msg_def bytes_of_u16_def WithInit_init_def
        bytes_of_u32_def)

text \<open>
  C2. When the size of the value exceeds the capacity left at the write position,
  \<^verbatim>\<open>add<T>\<close> changes nothing: the message after the call (bytes, length, position and
  overrun flag) is the message before it, whatever \<^verbatim>\<open>canAdd\<close> answers, and the only
  effect is one error entry in the log.
\<close>

theorem C2_add_overflow_no_mutation:
  assumes "length (buffer m) - unat (position (info m)) < length val"
  shows "snd (add can_add val m) = m \<and>
         (fst (add can_add val m) = [Error_CannotAdd] \<or>
          fst (add can_add val m) = [Error_BufferOverflow])"
  using assms by (auto simp: add_def)

text \<open>A two-byte write to \<open>short_msg\<close>, which has one byte left.\<close>

theorem C2_add_overflow_no_mutation_witness:
  "length (buffer short_msg) - unat (position (info short_msg)) < length (bytes_of_u16 0x0102) \<and>
   snd (add canAdd (bytes_of_u16 0x0102) short_msg) = short_msg \<and>
   (fst (add canAdd (bytes_of_u16 0x0102) short_msg) = [Error_CannotAdd] \<or>
    fst (add canAdd (bytes_of_u16 0x0102) short_msg) = [Error_BufferOverflow])"
proof -
  have h: "length (buffer short_msg) - unat (position (info short_msg))
             < length (bytes_of_u16 0x0102)"
    by (simp add: short_msg_def)
  show ?thesis
    using h C2_add_overflow_no_mutation [of short_msg "bytes_of_u16 0x0102" canAdd]
    by (intro conjI) simp_all
qed

text \<open>
  C3. On a buffer with at least \<^verbatim>\<open>sizeof(T)\<close> bytes left at the write position (and a
  \<^verbatim>\<open>canAdd\<close> that accepts the write), \<^verbatim>\<open>add<T>\<close> advances position and length by
  exactly \<^verbatim>\<open>sizeof(T)\<close> (in \<^verbatim>\<open>uint16_t\<close>; as numbers when the sum fits 16 bits), and
  a \<^verbatim>\<open>get<T>\<close> that reads the written bytes from the position of the write (and is
  let through by \<^verbatim>\<open>canRead\<close>) returns the object representation written, byte for
  byte, whatever \<^verbatim>\<open>T()\<close> is. The reader \<open>r\<close> is any message holding the bytes the write left, with its cursor
  at the position of the write: the written message with its cursor put back, or the
  message of the receiving side.
\<close>

theorem C3_add_get_roundtrip:
  assumes acc: "can_add m (length val)"
    and room: "unat (position (info m)) + length val \<le> length (buffer m)"
    and bytes: "buffer r = buffer (snd (add can_add val m))"
    and pos: "position (info r) = position (info m)"
    and rd: "can_read r (int (length val))"
  shows "get can_read (length val) T_init r =
           Inr (val, r\<lparr>info := (info r)\<lparr>position := position (info m) + of_nat (length val)\<rparr>\<rparr>) \<and>
         fst (add can_add val m) = [Trace_add] \<and>
         position (info (snd (add can_add val m))) = position (info m) + of_nat (length val) \<and>
         length_msg (info (snd (add can_add val m))) = length_msg (info m) + of_nat (length val) \<and>
         (length (buffer m) < 2 ^ 16 \<longrightarrow>
            unat (position (info (snd (add can_add val m)))) =
              unat (position (info m)) + length val) \<and>
         (unat (length_msg (info m)) + length val < 2 ^ 16 \<longrightarrow>
            unat (length_msg (info (snd (add can_add val m)))) =
              unat (length_msg (info m)) + length val)"
proof -
  note a = add_accepted [of can_add m val, OF acc room]
  have b: "buffer r = write_at (unat (position (info m))) val (buffer m)"
    using bytes a by simp
  have len: "length (buffer r) = length (buffer m)"
    using b room by (simp add: length_write_at)
  have g: "get can_read (length val) T_init r =
      Inr (val, r\<lparr>info := (info r)\<lparr>position := position (info m) + of_nat (length val)\<rparr>\<rparr>)"
    using rd room len pos b by (simp add: get_def read_at_write_at)
  have p: "length (buffer m) < 2 ^ 16 \<longrightarrow>
      unat (position (info m) + of_nat (length val)) = unat (position (info m)) + length val"
    using room by (auto intro!: unat_add_of_nat_16)
  have l: "unat (length_msg (info m)) + length val < 2 ^ 16 \<longrightarrow>
      unat (length_msg (info m) + of_nat (length val)) = unat (length_msg (info m)) + length val"
    by (auto intro!: unat_add_of_nat_16)
  show ?thesis
    using g p l by (simp add: a)
qed

text \<open>Writing 0xDEADBEEF to a new message of capacity 16 and reading it back from offset 7.\<close>

theorem C3_add_get_roundtrip_witness:
  "canAdd (NetworkMessage_new 16) (length (bytes_of_u32 0xDEADBEEF)) \<and>
   canRead reread_msg (int (length (bytes_of_u32 0xDEADBEEF))) \<and>
   get canRead (length (bytes_of_u32 0xDEADBEEF)) (bytes_of_u32 0) reread_msg
     = Inr (bytes_of_u32 0xDEADBEEF, written_msg) \<and>
   unat (position (info written_msg)) = 7 + 4 \<and>
   unat (length_msg (info written_msg)) = 0 + 4"
proof -
  let ?m = "NetworkMessage_new 16"
  let ?v = "bytes_of_u32 0xDEADBEEF"
  have acc: "canAdd ?m (length ?v)"
    by (simp add: canAdd_def new_eval)
  have room: "unat (position (info ?m)) + length ?v \<le> length (buffer ?m)"
    by (simp add: new_eval)
  have bytes: "buffer reread_msg = buffer (snd (add canAdd ?v ?m))"
    by (simp add: reread_msg_def written_msg_def)
  have pos: "position (info reread_msg) = position (info ?m)"
    by (simp add: reread_msg_def new_eval INITIAL_BUFFER_POSITION_def)
  have rd: "canRead reread_msg (int (length ?v))"
    by (simp add: canRead_def reread_msg_def written_msg_eval INITIAL_BUFFER_POSITION_def)
  note t = C3_add_get_roundtrip [where can_add = canAdd and m = ?m and val = ?v
      and r = reread_msg and can_read = canRead and T_init = "bytes_of_u32 0",
      OF acc room bytes pos rd]
  have same: "reread_msg\<lparr>info := (info reread_msg)
                \<lparr>position := position (info ?m) + of_nat (length ?v)\<rparr>\<rparr> = written_msg"
    by (simp add: reread_msg_def written_msg_eval new_eval)
  have "length (buffer ?m) < 2 ^ 16" "unat (length_msg (info ?m)) + length ?v < 2 ^ 16"
    by (simp_all add: new_eval)
  then show ?thesis
    using acc rd t same by (simp add: written_msg_def [symmetric] new_eval)
qed

text \<open>
  C4. For every length \<open>L\<close> the padding amount is \<open>8 - L mod 8 - 1\<close> and
  \<open>(1 + padding + L) mod 8 = 0\<close>. When \<^verbatim>\<open>addPaddingBytes\<close> appends that many bytes
  (it adds the amount to the length) and the one-byte header is prepended (one byte of
  the reserved prefix is left), the length after \<^verbatim>\<open>writePaddingAmount\<close> is
  \<open>L + padding + 1\<close> and a multiple of 8.
\<close>

theorem C4_padding_alignment:
  assumes appended:
      "length_msg (info (add_padding_bytes (unat (paddingAmount (length_msg (info (base om)))))
          (base om)))
       = length_msg (info (base om)) + of_nat (unat (paddingAmount (length_msg (info (base om)))))"
    and room: "1 \<le> unat (outputBufferStart om)"
    and inside: "unat (outputBufferStart om)
       \<le> length (buffer (add_padding_bytes (unat (paddingAmount (length_msg (info (base om)))))
            (base om)))"
  shows "unat (paddingAmount (length_msg (info (base om))))
           = 8 - unat (length_msg (info (base om))) mod 8 - 1 \<and>
         (1 + unat (paddingAmount (length_msg (info (base om))))
            + unat (length_msg (info (base om)))) mod 8 = 0 \<and>
         (case writePaddingAmount add_padding_bytes om of
            Inl e \<Rightarrow> False
          | Inr (lg, om') \<Rightarrow>
              lg = [] \<and>
              length_msg (info (base om'))
                = length_msg (info (base om))
                  + of_nat (unat (paddingAmount (length_msg (info (base om))))) + 1 \<and>
              unat (length_msg (info (base om'))) mod 8 = 0)"
proof -
  let ?L = "length_msg (info (base om))"
  let ?p = "paddingAmount ?L"
  let ?om1 = "om\<lparr>base := add_padding_bytes (unat ?p) (base om)\<rparr>"
  let ?om2 = "?om1\<lparr>outputBufferStart := outputBufferStart ?om1 - of_nat (length (bytes_of_u8 ?p)),
           base := (base ?om1)
             \<lparr>buffer := write_at (unat (outputBufferStart ?om1 - of_nat (length (bytes_of_u8 ?p))))
                          (bytes_of_u8 ?p) (buffer (base ?om1)),
              info := (info (base ?om1))
                \<lparr>length_msg := length_msg (info (base ?om1)) + of_nat (length (bytes_of_u8 ?p))\<rparr>\<rparr>\<rparr>"
  have p: "unat ?p = 8 - unat ?L mod 8 - 1"
    by (rule unat_paddingAmount)
  have al: "(1 + unat ?p + unat ?L) mod 8 = 0"
    unfolding p by (rule padding_aligns)
  have h: "add_header (bytes_of_u8 ?p) ?om1 = Inr ([], ?om2)"
    by (rule add_header_accepted) (use room inside in simp_all)
  have w: "writePaddingAmount add_padding_bytes om = Inr ([], ?om2)"
    using h by (simp add: writePaddingAmount_def Let_def)
  have len2: "length_msg (info (base ?om2)) = ?L + of_nat (unat ?p) + 1"
    by (simp add: appended)
  have m8: "unat (?L + of_nat (unat ?p) + 1) mod 8 = 0"
  proof -
    have "?L + of_nat (unat ?p) + 1 = ?L + of_nat (unat ?p + 1)"
      by simp
    then have "unat (?L + of_nat (unat ?p) + 1) mod 8 = (unat ?L + (unat ?p + 1)) mod 8"
      by (simp only: mod8_add_16)
    also have "\<dots> = 0"
      using al by (simp add: ac_simps)
    finally show ?thesis .
  qed
  have c: "case writePaddingAmount add_padding_bytes om of
            Inl e \<Rightarrow> False
          | Inr (lg, om') \<Rightarrow>
              lg = [] \<and>
              length_msg (info (base om')) = ?L + of_nat (unat ?p) + 1 \<and>
              unat (length_msg (info (base om'))) mod 8 = 0"
    unfolding w using m8 len2 by (simp only: sum.case prod.case simp_thms)
  show ?thesis
    using p al c by (intro conjI)
qed

text \<open>The payload "PING": three padding bytes, and length 8 after \<^verbatim>\<open>writePaddingAmount\<close>.\<close>

theorem C4_padding_alignment_witness:
  "length_msg (info (addPaddingBytes 0x33
       (unat (paddingAmount (length_msg (info (base ping_msg))))) (base ping_msg)))
     = length_msg (info (base ping_msg))
       + of_nat (unat (paddingAmount (length_msg (info (base ping_msg))))) \<and>
   1 \<le> unat (outputBufferStart ping_msg) \<and>
   unat (paddingAmount (length_msg (info (base ping_msg)))) = 3 \<and>
   (case writePaddingAmount (addPaddingBytes 0x33) ping_msg of
      Inl e \<Rightarrow> False
    | Inr (lg, om') \<Rightarrow> lg = [] \<and> length_msg (info (base om')) = 8)"
proof -
  have L: "length_msg (info (base ping_msg)) = 4"
    by (simp add: ping_msg_eval)
  have p: "unat (paddingAmount (length_msg (info (base ping_msg)))) = 3"
    by (simp add: L paddingAmount_4)
  have appended: "length_msg (info (addPaddingBytes 0x33
       (unat (paddingAmount (length_msg (info (base ping_msg))))) (base ping_msg)))
     = length_msg (info (base ping_msg))
       + of_nat (unat (paddingAmount (length_msg (info (base ping_msg)))))"
    unfolding p by (simp add: padded_ping_eval L)
  have room: "1 \<le> unat (outputBufferStart ping_msg)"
    by (simp add: ping_msg_eval)
  have inside: "unat (outputBufferStart ping_msg)
       \<le> length (buffer (addPaddingBytes 0x33
            (unat (paddingAmount (length_msg (info (base ping_msg))))) (base ping_msg)))"
  proof -
    have "unat (outputBufferStart ping_msg) = 7"
      by (simp add: ping_msg_eval)
    moreover have "length (buffer (addPaddingBytes 0x33 3 (base ping_msg))) = 24"
      by (simp add: padded_ping_eval ping_def)
    ultimately show ?thesis
      unfolding p by simp
  qed
  note t = C4_padding_alignment [of "addPaddingBytes 0x33" ping_msg, OF appended room inside]
  show ?thesis
    using appended room p t
    by (auto simp: L paddingAmount_4 split: sum.splits)
qed

text \<open>
  C5. With room in the reserved prefix for the headers it writes (6 bytes with a
  checksum, 2 without), \<^verbatim>\<open>addCryptoHeader(addChecksum, checksum)\<close> logs nothing and
  prepends the 4 bytes of \<open>checksum\<close> exactly when \<open>addChecksum\<close> holds, and before them
  the 2 bytes of \<^verbatim>\<open>(length - 4) / 8\<close>, taken from the length at that moment (the
  length before the call, plus 4 when the checksum was prepended); the 4 is subtracted
  in both cases. As a number the header is \<open>(length - 4) div 8\<close> when the length is
  at least 4, and 0 below that (the division truncates towards zero).
\<close>

theorem C5_addCryptoHeader:
  assumes room: "(if addChecksum then 6 else 2) \<le> unat (outputBufferStart om)"
    and inside: "unat (outputBufferStart om) \<le> length (buffer (base om))"
  shows "addCryptoHeader addChecksum checksum om =
           Inr ([],
             om\<lparr>outputBufferStart := outputBufferStart om - (if addChecksum then 6 else 2),
                base := (base om)
                  \<lparr>buffer :=
                     write_at (unat (outputBufferStart om) - (if addChecksum then 6 else 2))
                       (bytes_of_u16 (blockLength
                           (length_msg (info (base om)) + (if addChecksum then 4 else 0)))
                        @ (if addChecksum then bytes_of_u32 checksum else []))
                       (buffer (base om)),
                   info := (info (base om))
                     \<lparr>length_msg := length_msg (info (base om))
                        + (if addChecksum then 4 else 0) + 2\<rparr>\<rparr>\<rparr>) \<and>
         (4 \<le> unat (length_msg (info (base om)) + (if addChecksum then 4 else 0)) \<longrightarrow>
            unat (blockLength (length_msg (info (base om)) + (if addChecksum then 4 else 0)))
              = (unat (length_msg (info (base om)) + (if addChecksum then 4 else 0)) - 4) div 8) \<and>
         (unat (length_msg (info (base om)) + (if addChecksum then 4 else 0)) < 4 \<longrightarrow>
            blockLength (length_msg (info (base om)) + (if addChecksum then 4 else 0)) = 0)"
proof (intro conjI impI)
  show "addCryptoHeader addChecksum checksum om =
           Inr ([],
             om\<lparr>outputBufferStart := outputBufferStart om - (if addChecksum then 6 else 2),
                base := (base om)
                  \<lparr>buffer :=
                     write_at (unat (outputBufferStart om) - (if addChecksum then 6 else 2))
                       (bytes_of_u16 (blockLength
                           (length_msg (info (base om)) + (if addChecksum then 4 else 0)))
                        @ (if addChecksum then bytes_of_u32 checksum else []))
                       (buffer (base om)),
                   info := (info (base om))
                     \<lparr>length_msg := length_msg (info (base om))
                        + (if addChecksum then 4 else 0) + 2\<rparr>\<rparr>\<rparr>)"
  proof (cases addChecksum)
    case False
    then show ?thesis
      using writeMessageLength_accepted [of om] room inside
      by (simp add: addCryptoHeader_def and_then_def)
  next
    case True
    let ?s = "outputBufferStart om"
    let ?buf = "buffer (base om)"
    let ?L = "length_msg (info (base om))"
    let ?om1 = "om\<lparr>outputBufferStart := ?s - 4,
             base := (base om)
               \<lparr>buffer := write_at (unat ?s - 4) (bytes_of_u32 checksum) ?buf,
                info := (info (base om))\<lparr>length_msg := ?L + 4\<rparr>\<rparr>\<rparr>"
    let ?om2 = "om\<lparr>outputBufferStart := ?s - 4 - 2,
             base := (base om)
               \<lparr>buffer := write_at (unat (?s - 4) - 2) (bytes_of_u16 (blockLength (?L + 4)))
                            (write_at (unat ?s - 4) (bytes_of_u32 checksum) ?buf),
                info := (info (base om))\<lparr>length_msg := ?L + 4 + 2\<rparr>\<rparr>\<rparr>"
    have s6: "6 \<le> unat ?s"
      using room True by simp
    have u4: "unat (?s - of_nat 4) = unat ?s - 4"
      by (rule unat_sub_of_nat_16) (use s6 in simp)
    have h1: "add_header (bytes_of_u32 checksum) om = Inr ([], ?om1)"
      using add_header_accepted [of "bytes_of_u32 checksum" om] s6 inside u4 by simp
    have l1: "length (buffer (base ?om1)) = length ?buf"
      using s6 inside by (simp add: length_write_at)
    have "writeMessageLength ?om1 = Inr ([],
          ?om1\<lparr>outputBufferStart := outputBufferStart ?om1 - 2,
             base := (base ?om1)
               \<lparr>buffer := write_at (unat (outputBufferStart ?om1) - 2)
                            (bytes_of_u16 (blockLength (length_msg (info (base ?om1)))))
                            (buffer (base ?om1)),
                info := (info (base ?om1))
                  \<lparr>length_msg := length_msg (info (base ?om1)) + 2\<rparr>\<rparr>\<rparr>)"
      by (rule writeMessageLength_accepted) (use s6 inside u4 l1 in simp_all)
    then have h2: "writeMessageLength ?om1 = Inr ([], ?om2)"
      by simp
    have adj: "write_at (unat ?s - 6) (bytes_of_u16 b)
                 (write_at (unat ?s - 4) (bytes_of_u32 checksum) ?buf)
               = write_at (unat ?s - 6) (bytes_of_u16 b @ bytes_of_u32 checksum) ?buf" for b
    proof -
      have pre: "unat ?s - 6 + length (bytes_of_u16 b) + length (bytes_of_u32 checksum)
                   \<le> length ?buf"
        using s6 inside by simp
      have e: "unat ?s - 6 + length (bytes_of_u16 b) = unat ?s - 4"
        using s6 by simp
      show ?thesis
        using write_at_adjacent [OF pre] unfolding e .
    qed
    have r: "addCryptoHeader addChecksum checksum om = Inr ([], ?om2)"
      by (simp only: addCryptoHeader_def and_then_def True if_True h1 h2
            sum.case prod.case append_Nil)
    have f: "unat (?s - 4) - 2 = unat ?s - 6"
      using u4 by simp
    have g: "?s - 4 - 2 = ?s - 6"
      by simp
    show ?thesis
      unfolding r f g adj using True by (simp only: if_True)
  qed
next
  assume "4 \<le> unat (length_msg (info (base om)) + (if addChecksum then 4 else 0))"
  then show "unat (blockLength (length_msg (info (base om)) + (if addChecksum then 4 else 0)))
      = (unat (length_msg (info (base om)) + (if addChecksum then 4 else 0)) - 4) div 8"
    by (rule blockLength_ge4)
next
  assume "unat (length_msg (info (base om)) + (if addChecksum then 4 else 0)) < 4"
  then show "blockLength (length_msg (info (base om)) + (if addChecksum then 4 else 0)) = 0"
    by (rule blockLength_lt4)
qed

text \<open>The padded "PING" message, with the cursor at 6: with a checksum the frame starts at 0 with block length 1, without it starts at 4 with block length 0.\<close>

theorem C5_addCryptoHeader_witness:
  "6 \<le> unat (outputBufferStart padded_ping_msg) \<and>
   unat (outputBufferStart padded_ping_msg) \<le> length (buffer (base padded_ping_msg)) \<and>
   (case addCryptoHeader True 0x12345678 padded_ping_msg of
      Inl e \<Rightarrow> False
    | Inr (lg, om') \<Rightarrow>
        lg = [] \<and> outputBufferStart om' = 0 \<and>
        frame om' = [1, 0, 0x78, 0x56, 0x34, 0x12, 3, 0x50, 0x49, 0x4E, 0x47, 0x33, 0x33, 0x33]) \<and>
   (case addCryptoHeader False 0x12345678 padded_ping_msg of
      Inl e \<Rightarrow> False
    | Inr (lg, om') \<Rightarrow>
        lg = [] \<and> outputBufferStart om' = 4 \<and>
        frame om' = [0, 0, 3, 0x50, 0x49, 0x4E, 0x47, 0x33, 0x33, 0x33]) \<and>
   unat (length_msg (info (base padded_ping_msg)) + 4) = 12 \<and>
   unat (blockLength (length_msg (info (base padded_ping_msg)) + 4)) = (12 - 4) div 8 \<and>
   unat (length_msg (info (base (OutputMessage_new 24)))) < 4 \<and>
   blockLength (length_msg (info (base (OutputMessage_new 24)))) = 0"
proof -
  have room6: "(if True then 6 else 2) \<le> unat (outputBufferStart padded_ping_msg)"
    by (simp add: padded_ping_msg_eval)
  have room2: "(if False then 6 else 2) \<le> unat (outputBufferStart padded_ping_msg)"
    by (simp add: padded_ping_msg_eval)
  have inside: "unat (outputBufferStart padded_ping_msg) \<le> length (buffer (base padded_ping_msg))"
    by (simp add: padded_ping_msg_eval ping_def)
  note t1 = C5_addCryptoHeader [of True padded_ping_msg "0x12345678", OF room6 inside,
      THEN conjunct1]
  note t2 = C5_addCryptoHeader [of False padded_ping_msg "0x12345678", OF room2 inside,
      THEN conjunct1]
  have c1: "case addCryptoHeader True 0x12345678 padded_ping_msg of
      Inl e \<Rightarrow> False
    | Inr (lg, om') \<Rightarrow>
        lg = [] \<and> outputBufferStart om' = 0 \<and>
        frame om' = [1, 0, 0x78, 0x56, 0x34, 0x12, 3, 0x50, 0x49, 0x4E, 0x47, 0x33, 0x33, 0x33]"
    unfolding t1
    by (simp add: padded_ping_msg_eval frame_def getOutputBuffer_def write_at_def ping_def
          blockLength_12 bytes_of_u16_def bytes_of_u32_def)
  have c2: "case addCryptoHeader False 0x12345678 padded_ping_msg of
      Inl e \<Rightarrow> False
    | Inr (lg, om') \<Rightarrow>
        lg = [] \<and> outputBufferStart om' = 4 \<and>
        frame om' = [0, 0, 3, 0x50, 0x49, 0x4E, 0x47, 0x33, 0x33, 0x33]"
    unfolding t2
    by (simp add: padded_ping_msg_eval frame_def getOutputBuffer_def write_at_def ping_def
          blockLength_8 bytes_of_u16_def)
  have L: "unat (length_msg (info (base padded_ping_msg)) + 4) = 12"
    by (simp add: padded_ping_msg_eval)
  have b1: "unat (blockLength (length_msg (info (base padded_ping_msg)) + 4)) = (12 - 4) div 8"
    using C5_addCryptoHeader [of True padded_ping_msg "0x12345678", OF room6 inside] L
    by simp
  have room0: "(if False then 6 else 2) \<le> unat (outputBufferStart (OutputMessage_new 24))"
    by (simp add: OutputMessage_new_def INITIAL_BUFFER_POSITION_def)
  have inside0: "unat (outputBufferStart (OutputMessage_new 24))
      \<le> length (buffer (base (OutputMessage_new 24)))"
    by (simp add: OutputMessage_new_def INITIAL_BUFFER_POSITION_def NetworkMessage_new_def)
  have L0: "unat (length_msg (info (base (OutputMessage_new 24)))) < 4"
    by (simp add: OutputMessage_new_def new_eval)
  have b0: "blockLength (length_msg (info (base (OutputMessage_new 24)))) = 0"
    using C5_addCryptoHeader [of False "OutputMessage_new 24" 0, OF room0 inside0] L0
    by simp
  show ?thesis
    using room6 inside c1 c2 L b1 L0 b0 by simp
qed

text \<open>
  C7. When the \<^verbatim>\<open>B.length\<close> bytes of \<open>B\<close> from offset 7 lie inside \<open>B\<close>'s array and \<open>A\<close>
  has that much room at its position, \<^verbatim>\<open>A.append(B)\<close> is defined, copies exactly those
  \<^verbatim>\<open>B.length\<close> bytes to \<open>A\<close>'s position, adds \<^verbatim>\<open>B.length\<close> to \<open>A\<close>'s length and to its
  position (in \<^verbatim>\<open>uint16_t\<close>; as numbers when the sum fits 16 bits), and changes no byte
  of \<open>A\<close> below the prior position (nor any byte behind the copy). This is so for both
  overloads: \<^verbatim>\<open>append(const OutputMessage_ptr &)\<close>, called with a pointer to an
  output message whose \<^verbatim>\<open>NetworkMessage\<close> part is \<open>B\<close> (whatever its header cursor
  \<open>s\<close>), gives the result of \<^verbatim>\<open>append(const NetworkMessage &)\<close> on \<open>B\<close>.
\<close>

theorem C7_append_copies_payload:
  assumes src: "7 + unat (length_msg (info B)) \<le> length (buffer B)"
    and dst: "unat (position (info (base A))) + unat (length_msg (info B))
                \<le> length (buffer (base A))"
  shows "(case append_msg B A of
           Inl e \<Rightarrow> False
         | Inr A' \<Rightarrow>
             read_at (unat (position (info (base A)))) (unat (length_msg (info B)))
                 (buffer (base A'))
               = read_at 7 (unat (length_msg (info B))) (buffer B) \<and>
             length (read_at 7 (unat (length_msg (info B))) (buffer B))
               = unat (length_msg (info B)) \<and>
             take (unat (position (info (base A)))) (buffer (base A'))
               = take (unat (position (info (base A)))) (buffer (base A)) \<and>
             drop (unat (position (info (base A))) + unat (length_msg (info B)))
                 (buffer (base A'))
               = drop (unat (position (info (base A))) + unat (length_msg (info B)))
                   (buffer (base A)) \<and>
             length_msg (info (base A')) = length_msg (info (base A)) + length_msg (info B) \<and>
             position (info (base A')) = position (info (base A)) + length_msg (info B) \<and>
             overrun (info (base A')) = overrun (info (base A)) \<and>
             outputBufferStart A' = outputBufferStart A \<and>
             (unat (length_msg (info (base A))) + unat (length_msg (info B)) < 2 ^ 16 \<longrightarrow>
                unat (length_msg (info (base A')))
                  = unat (length_msg (info (base A))) + unat (length_msg (info B))) \<and>
             (unat (position (info (base A))) + unat (length_msg (info B)) < 2 ^ 16 \<longrightarrow>
                unat (position (info (base A')))
                  = unat (position (info (base A))) + unat (length_msg (info B)))) \<and>
         append_ptr \<lparr>base = B, outputBufferStart = s\<rparr> A = append_msg B A"
proof -
  let ?n = "unat (length_msg (info B))"
  let ?p = "unat (position (info (base A)))"
  let ?bytes = "read_at 7 ?n (buffer B)"
  have n: "length ?bytes = ?n"
    using src by (simp add: length_read_at)
  have fit: "?p + length ?bytes \<le> length (buffer (base A))"
    using dst n by simp
  have r: "read_at ?p ?n (write_at ?p ?bytes (buffer (base A))) = ?bytes"
    using read_at_write_at [OF fit] n by simp
  have t: "take ?p (write_at ?p ?bytes (buffer (base A))) = take ?p (buffer (base A))"
    using fit by (simp add: take_write_at)
  have d: "drop (?p + ?n) (write_at ?p ?bytes (buffer (base A))) = drop (?p + ?n) (buffer (base A))"
    using drop_write_at [OF fit] n by simp
  have ptr: "append_ptr \<lparr>base = B, outputBufferStart = s\<rparr> A = append_msg B A"
    by (simp add: append_ptr_def append_msg_def Let_def)
  have ref: "case append_msg B A of
           Inl e \<Rightarrow> False
         | Inr A' \<Rightarrow>
             read_at (unat (position (info (base A)))) (unat (length_msg (info B)))
                 (buffer (base A'))
               = read_at 7 (unat (length_msg (info B))) (buffer B) \<and>
             length (read_at 7 (unat (length_msg (info B))) (buffer B))
               = unat (length_msg (info B)) \<and>
             take (unat (position (info (base A)))) (buffer (base A'))
               = take (unat (position (info (base A)))) (buffer (base A)) \<and>
             drop (unat (position (info (base A))) + unat (length_msg (info B)))
                 (buffer (base A'))
               = drop (unat (position (info (base A))) + unat (length_msg (info B)))
                   (buffer (base A)) \<and>
             length_msg (info (base A')) = length_msg (info (base A)) + length_msg (info B) \<and>
             position (info (base A')) = position (info (base A)) + length_msg (info B) \<and>
             overrun (info (base A')) = overrun (info (base A)) \<and>
             outputBufferStart A' = outputBufferStart A \<and>
             (unat (length_msg (info (base A))) + unat (length_msg (info B)) < 2 ^ 16 \<longrightarrow>
                unat (length_msg (info (base A')))
                  = unat (length_msg (info (base A))) + unat (length_msg (info B))) \<and>
             (unat (position (info (base A))) + unat (length_msg (info B)) < 2 ^ 16 \<longrightarrow>
                unat (position (info (base A')))
                  = unat (position (info (base A))) + unat (length_msg (info B)))"
    using src dst r t d n
    by (simp add: append_msg_def getLength_def getBuffer_def INITIAL_BUFFER_POSITION_def
          Let_def unat_add_16)
  show ?thesis
    using ref ptr by (intro conjI)
qed

text \<open>Appending the four payload bytes of \<open>written_msg\<close> to \<open>ping_msg\<close>.\<close>

theorem C7_append_copies_payload_witness:
  "7 + unat (length_msg (info written_msg)) \<le> length (buffer written_msg) \<and>
   unat (position (info (base ping_msg))) + unat (length_msg (info written_msg))
     \<le> length (buffer (base ping_msg)) \<and>
   (case append_msg written_msg ping_msg of
      Inl e \<Rightarrow> False
    | Inr A' \<Rightarrow>
        read_at 11 4 (buffer (base A')) = bytes_of_u32 0xDEADBEEF \<and>
        take 11 (buffer (base A')) = take 11 (buffer (base ping_msg)) \<and>
        unat (length_msg (info (base A'))) = 8 \<and>
        unat (position (info (base A'))) = 15) \<and>
   (case append_ptr \<lparr>base = written_msg, outputBufferStart = 3\<rparr> ping_msg of
      Inl e \<Rightarrow> False
    | Inr A' \<Rightarrow>
        read_at 11 4 (buffer (base A')) = bytes_of_u32 0xDEADBEEF \<and>
        take 11 (buffer (base A')) = take 11 (buffer (base ping_msg)) \<and>
        unat (length_msg (info (base A'))) = 8 \<and>
        unat (position (info (base A'))) = 15)"
proof -
  have src: "7 + unat (length_msg (info written_msg)) \<le> length (buffer written_msg)"
    by (simp add: written_msg_eval)
  have dst: "unat (position (info (base ping_msg))) + unat (length_msg (info written_msg))
     \<le> length (buffer (base ping_msg))"
    by (simp add: written_msg_eval ping_msg_eval ping_def)
  have payload: "read_at 7 4 (buffer written_msg) = bytes_of_u32 0xDEADBEEF"
    by (simp add: written_msg_eval read_at_def)
  note t = C7_append_copies_payload [where B = written_msg and A = ping_msg and s = 3,
      OF src dst]
  have v: "unat (length_msg (info written_msg)) = 4" "unat (position (info (base ping_msg))) = 11"
    "unat (length_msg (info (base ping_msg))) = 4"
    by (simp_all add: written_msg_eval ping_msg_eval)
  have ptr: "append_ptr \<lparr>base = written_msg, outputBufferStart = 3\<rparr> ping_msg
               = append_msg written_msg ping_msg"
    using t by (rule conjunct2)
  have c: "case append_msg written_msg ping_msg of
      Inl e \<Rightarrow> False
    | Inr A' \<Rightarrow>
        read_at 11 4 (buffer (base A')) = bytes_of_u32 0xDEADBEEF \<and>
        take 11 (buffer (base A')) = take 11 (buffer (base ping_msg)) \<and>
        unat (length_msg (info (base A'))) = 8 \<and>
        unat (position (info (base A'))) = 15"
    using t [THEN conjunct1] payload unfolding v by (auto split: sum.splits)
  show ?thesis
    using src dst c unfolding ptr by (intro conjI)
qed

text \<open>
  C9. On a freshly reset buffer (cursor at offset 7) with room for it, writing the
  \<^verbatim>\<open>uint16_t\<close> value 0x0102 with \<^verbatim>\<open>add<uint16_t>\<close> stores 0x02 at offset 7 and 0x01 at
  offset 8 and leaves the length 2.
\<close>

theorem C9_add_u16_little_endian:
  assumes acc: "can_add (reset m) 2"
    and cap: "9 \<le> length (buffer m)"
  shows "buffer (snd (add can_add (bytes_of_u16 0x0102) (reset m))) ! 7 = 0x02 \<and>
         buffer (snd (add can_add (bytes_of_u16 0x0102) (reset m))) ! 8 = 0x01 \<and>
         length_msg (info (snd (add can_add (bytes_of_u16 0x0102) (reset m)))) = 2"
proof -
  have bs: "bytes_of_u16 0x0102 = [0x02, 0x01]"
    by (simp add: bytes_of_u16_def)
  have l2: "length (bytes_of_u16 0x0102) = 2"
    by (simp add: bytes_of_u16_def)
  have p: "unat (position (info (reset m))) = 7"
    by (simp add: reset_def NetworkMessageInfo_default_def INITIAL_BUFFER_POSITION_def)
  have lm: "length_msg (info (reset m)) = 0"
    by (simp add: reset_def NetworkMessageInfo_default_def)
  have b: "buffer (reset m) = buffer m"
    by (simp add: reset_def)
  have a: "add can_add (bytes_of_u16 0x0102) (reset m) =
     ([Trace_add],
      (reset m)\<lparr>buffer := write_at (unat (position (info (reset m)))) (bytes_of_u16 0x0102)
                             (buffer (reset m)),
        info := (info (reset m))
          \<lparr>position := position (info (reset m)) + of_nat (length (bytes_of_u16 0x0102)),
           length_msg := length_msg (info (reset m)) + of_nat (length (bytes_of_u16 0x0102))\<rparr>\<rparr>)"
    by (rule add_accepted) (use acc cap p b in \<open>simp_all add: l2\<close>)
  have n7: "write_at 7 [0x02, 0x01 :: byte] (buffer m) ! (7 + 0) = [0x02, 0x01] ! 0"
    using cap by (intro nth_write_at_inside) simp_all
  have n8: "write_at 7 [0x02, 0x01 :: byte] (buffer m) ! (7 + 1) = [0x02, 0x01] ! 1"
    using cap by (intro nth_write_at_inside) simp_all
  show ?thesis
    using n7 n8 by (simp add: a p b lm) (simp add: bs)
qed

text \<open>The write into \<open>short_msg\<close> after \<^verbatim>\<open>reset()\<close>.\<close>

theorem C9_add_u16_little_endian_witness:
  "canAdd (reset short_msg) 2 \<and> 9 \<le> length (buffer short_msg) \<and>
   buffer (snd (add canAdd (bytes_of_u16 0x0102) (reset short_msg))) ! 7 = 0x02 \<and>
   buffer (snd (add canAdd (bytes_of_u16 0x0102) (reset short_msg))) ! 8 = 0x01 \<and>
   length_msg (info (snd (add canAdd (bytes_of_u16 0x0102) (reset short_msg)))) = 2"
proof -
  have acc: "canAdd (reset short_msg) 2"
    by (simp add: canAdd_def reset_short_msg_eval)
  have cap: "9 \<le> length (buffer short_msg)"
    by (simp add: short_msg_def)
  show ?thesis
    using acc cap C9_add_u16_little_endian [of canAdd short_msg, OF acc cap] by simp
qed

text \<open>
  C6. The header cursor \<^verbatim>\<open>outputBufferStart\<close> of a new \<^verbatim>\<open>OutputMessage\<close> is 7. A
  prepend of a header that is longer than the cursor is rejected: one error entry is
  logged and the message, the cursor included, is unchanged. An accepted prepend
  moves the cursor down by exactly the size of the header, without wrapping. The cursor
  after an operation is the cursor before it, lowered by the sizes of the headers the
  operation prepends and that fit; it never rises, and after any sequence of operations
  on a new message it is what the accepted headers leave of 7.
\<close>

theorem C6_header_cursor:
  "outputBufferStart (OutputMessage_new n) = 7 \<and>
   (case add_header hdr om of
      Inl e \<Rightarrow>
        length hdr \<le> unat (outputBufferStart om) \<and>
        length (buffer (base om)) < unat (outputBufferStart om)
    | Inr (lg, om') \<Rightarrow>
        (if unat (outputBufferStart om) < length hdr
         then lg = [Error_InsufficientHeaderSpace] \<and> om' = om
         else lg = [] \<and>
              unat (outputBufferStart om') + length hdr = unat (outputBufferStart om))) \<and>
   (case apply_op can_read can_add add_padding_bytes x om of
      Inl e \<Rightarrow> True
    | Inr om' \<Rightarrow>
        unat (outputBufferStart om')
          = cursor_after (unat (outputBufferStart om)) (header_sizes x)) \<and>
   (case run can_read can_add add_padding_bytes xs (OutputMessage_new n) of
      Inl e \<Rightarrow> True
    | Inr om' \<Rightarrow>
        unat (outputBufferStart om') = cursor_after 7 (concat (map header_sizes xs))) \<and>
   cursor_after c ns \<le> c"
proof (intro conjI)
  show "outputBufferStart (OutputMessage_new n) = 7"
    by (simp add: OutputMessage_new_def INITIAL_BUFFER_POSITION_def)
next
  show "case add_header hdr om of
      Inl e \<Rightarrow>
        length hdr \<le> unat (outputBufferStart om) \<and>
        length (buffer (base om)) < unat (outputBufferStart om)
    | Inr (lg, om') \<Rightarrow>
        (if unat (outputBufferStart om) < length hdr
         then lg = [Error_InsufficientHeaderSpace] \<and> om' = om
         else lg = [] \<and>
              unat (outputBufferStart om') + length hdr = unat (outputBufferStart om))"
  proof (cases "add_header hdr om")
    case (Inl e)
    then show ?thesis
      by (simp add: add_header_def split: if_splits)
  next
    case (Inr r)
    obtain lg om' where r: "r = (lg, om')"
      by (cases r)
    show ?thesis
    proof (cases "unat (outputBufferStart om) < length hdr")
      case True
      then show ?thesis
        using Inr r add_header_rejected [of om hdr] by simp
    next
      case False
      have "lg = []"
        using Inr r False by (auto simp: add_header_def split: if_splits)
      then show ?thesis
        using Inr r False add_header_cursor [of hdr om lg om'] by simp
    qed
  qed
next
  show "case apply_op can_read can_add add_padding_bytes x om of
      Inl e \<Rightarrow> True
    | Inr om' \<Rightarrow>
        unat (outputBufferStart om')
          = cursor_after (unat (outputBufferStart om)) (header_sizes x)"
    using apply_op_cursor [of can_read can_add add_padding_bytes x om]
    by (cases "apply_op can_read can_add add_padding_bytes x om") auto
next
  have s: "unat (outputBufferStart (OutputMessage_new n)) = 7"
    by (simp add: OutputMessage_new_def INITIAL_BUFFER_POSITION_def)
  show "case run can_read can_add add_padding_bytes xs (OutputMessage_new n) of
      Inl e \<Rightarrow> True
    | Inr om' \<Rightarrow>
        unat (outputBufferStart om') = cursor_after 7 (concat (map header_sizes xs))"
    using run_cursor [of can_read can_add add_padding_bytes xs "OutputMessage_new n"] s
    by (cases "run can_read can_add add_padding_bytes xs (OutputMessage_new n)") simp_all
next
  show "cursor_after c ns \<le> c"
    by (rule cursor_after_le)
qed

text \<open>Writing "PING" and finalising it with a checksum uses up the reserved prefix: the cursor ends at 0, and a further length header is rejected and leaves the message as it is.\<close>

theorem C6_header_cursor_witness:
  "run canRead canAdd (addPaddingBytes 0x33) finalize_ops (OutputMessage_new 24)
     = Inr finalized_msg \<and>
   unat (outputBufferStart finalized_msg) = cursor_after 7 [1, 4, 2] \<and>
   cursor_after 7 [1, 4, 2] = 0 \<and>
   add_header (bytes_of_u16 0) finalized_msg = Inr ([Error_InsufficientHeaderSpace], finalized_msg) \<and>
   (case add_header (bytes_of_u8 3) (OutputMessage_new 24) of
      Inl e \<Rightarrow> False
    | Inr (lg, om') \<Rightarrow> lg = [] \<and> unat (outputBufferStart om') + 1 = 7) \<and>
   apply_op canRead canAdd (addPaddingBytes 0x33) WriteMessageLength finalized_msg
     = Inr finalized_msg"
proof -
  note t1 = C6_header_cursor [where n = 24 and hdr = "bytes_of_u16 0" and om = finalized_msg
      and can_read = canRead and can_add = canAdd and add_padding_bytes = "addPaddingBytes 0x33"
      and x = WriteMessageLength and xs = finalize_ops and c = 7 and ns = "[1, 4, 2]"]
  note t2 = C6_header_cursor [where n = 24 and hdr = "bytes_of_u8 3" and om = "OutputMessage_new 24"
      and can_read = canRead and can_add = canAdd and add_padding_bytes = "addPaddingBytes 0x33"
      and x = WriteMessageLength and xs = finalize_ops and c = 7 and ns = "[1, 4, 2]"]
  have s0: "unat (outputBufferStart finalized_msg) = 0"
    by (simp add: finalized_msg_def)
  have s7: "unat (outputBufferStart (OutputMessage_new 24)) = 7"
    using t2 by simp
  have hs: "concat (map header_sizes finalize_ops) = [1, 4, 2]"
    by (simp add: finalize_ops_def)
  have "unat (outputBufferStart finalized_msg)
          = cursor_after 7 (concat (map header_sizes finalize_ops))"
    using t1 by (simp add: run_finalize)
  then have r: "unat (outputBufferStart finalized_msg) = cursor_after 7 [1, 4, 2]"
    by (simp only: hs)
  have rej: "add_header (bytes_of_u16 0) finalized_msg
      = Inr ([Error_InsufficientHeaderSpace], finalized_msg)"
    using t1 s0 by (auto split: sum.splits)
  have acc: "case add_header (bytes_of_u8 3) (OutputMessage_new 24) of
      Inl e \<Rightarrow> False
    | Inr (lg, om') \<Rightarrow> lg = [] \<and> unat (outputBufferStart om') + 1 = 7"
    using t2 s7
    by (auto split: sum.splits simp: OutputMessage_new_def NetworkMessage_new_def)
  have w: "apply_op canRead canAdd (addPaddingBytes 0x33) WriteMessageLength finalized_msg
     = Inr finalized_msg"
    using rej by (simp add: writeMessageLength_def add_header_def s0)
  show ?thesis
    using run_finalize r rej acc w by simp
qed

text \<open>
  C8. Finalising without checksum a message whose payload is the four bytes "PING":
  when \<^verbatim>\<open>addPaddingBytes(3)\<close> appends three filler bytes to the payload,
  \<^verbatim>\<open>writePaddingAmount\<close> followed by \<^verbatim>\<open>addCryptoHeader(false, _)\<close> logs nothing and
  leaves the frame: block length 0 (two bytes), padding count 3, "PING", the three filler
  bytes. The frame starts at offset 4 and has 10 bytes, 8 of them after the length
  header.
\<close>

theorem C8_ping_frame:
  assumes len: "length_msg (info (base om)) = 4"
    and start: "outputBufferStart om = 7"
    and payload: "read_at 7 4 (buffer (base om)) = ping"
    and padded_len: "length_msg (info (add_padding_bytes 3 (base om)))
                       = length_msg (info (base om)) + 3"
    and padded: "read_at 7 7 (buffer (add_padding_bytes 3 (base om)))
                   = read_at 7 4 (buffer (base om)) @ [f1, f2, f3]"
  shows "case and_then (writePaddingAmount add_padding_bytes om) (addCryptoHeader False checksum) of
           Inl e \<Rightarrow> False
         | Inr (lg, om') \<Rightarrow>
             lg = [] \<and>
             outputBufferStart om' = 4 \<and>
             length_msg (info (base om')) = 10 \<and>
             frame om' = [0, 0, 3, 0x50, 0x49, 0x4E, 0x47, f1, f2, f3] \<and>
             u16_of_bytes (take 2 (frame om')) = 0 \<and>
             length (drop 2 (frame om')) = 8"
proof -
  let ?b1 = "add_padding_bytes 3 (base om)"
  let ?om1 = "om\<lparr>base := ?b1\<rparr>"
  let ?om2 = "om\<lparr>outputBufferStart := 6,
                 base := ?b1\<lparr>buffer := write_at 6 (bytes_of_u8 3) (buffer ?b1),
                             info := (info ?b1)\<lparr>length_msg := 8\<rparr>\<rparr>\<rparr>"
  let ?om3 = "om\<lparr>outputBufferStart := 4,
                 base := ?b1\<lparr>buffer := write_at 4 (bytes_of_u16 0)
                                          (write_at 6 (bytes_of_u8 3) (buffer ?b1)),
                             info := (info ?b1)\<lparr>length_msg := 10\<rparr>\<rparr>\<rparr>"
  have "length (read_at 7 7 (buffer ?b1)) = 7"
    using padded payload by (simp add: ping_def)
  then have cap: "14 \<le> length (buffer ?b1)"
    by (simp add: read_at_def)
  have l1: "length_msg (info ?b1) = 7"
    using padded_len len by simp
  have "add_header (bytes_of_u8 3) ?om1 = Inr ([],
        ?om1\<lparr>outputBufferStart := outputBufferStart ?om1 - of_nat (length (bytes_of_u8 3)),
           base := (base ?om1)
             \<lparr>buffer := write_at (unat (outputBufferStart ?om1 - of_nat (length (bytes_of_u8 3))))
                          (bytes_of_u8 3) (buffer (base ?om1)),
              info := (info (base ?om1))
                \<lparr>length_msg := length_msg (info (base ?om1)) + of_nat (length (bytes_of_u8 3))\<rparr>\<rparr>\<rparr>)"
    by (rule add_header_accepted) (use start cap in simp_all)
  then have h1: "add_header (bytes_of_u8 3) ?om1 = Inr ([], ?om2)"
    using start l1 by simp
  have w: "writePaddingAmount add_padding_bytes om = Inr ([], ?om2)"
    using h1 by (simp add: writePaddingAmount_def Let_def len paddingAmount_4)
  have l2: "length (buffer (base ?om2)) = length (buffer ?b1)"
    using cap by (simp add: length_write_at)
  have "writeMessageLength ?om2 = Inr ([],
        ?om2\<lparr>outputBufferStart := outputBufferStart ?om2 - 2,
           base := (base ?om2)
             \<lparr>buffer := write_at (unat (outputBufferStart ?om2) - 2)
                          (bytes_of_u16 (blockLength (length_msg (info (base ?om2)))))
                          (buffer (base ?om2)),
              info := (info (base ?om2))
                \<lparr>length_msg := length_msg (info (base ?om2)) + 2\<rparr>\<rparr>\<rparr>)"
    by (rule writeMessageLength_accepted) (use cap l2 in simp_all)
  then have h2: "writeMessageLength ?om2 = Inr ([], ?om3)"
    by (simp add: blockLength_8)
  have r: "and_then (writePaddingAmount add_padding_bytes om) (addCryptoHeader False checksum)
           = Inr ([], ?om3)"
    by (simp only: w and_then_def addCryptoHeader_def if_False h2 sum.case prod.case append_Nil)
  have f: "frame ?om3 = bytes_of_u16 0 @ bytes_of_u8 3 @ ping @ [f1, f2, f3]"
    using frame_after_headers [OF cap, of 0 3] padded payload
    by (simp add: frame_def getOutputBuffer_def)
  have e: "bytes_of_u16 0 @ bytes_of_u8 3 @ ping @ [f1, f2, f3]
             = [0, 0, 3, 0x50, 0x49, 0x4E, 0x47, f1, f2, f3]"
    by (simp add: bytes_of_u16_def bytes_of_u8_def ping_def)
  show ?thesis
    unfolding r using f e by simp
qed

text \<open>The scenario on a new message of capacity 24 with filler byte 0x33.\<close>

theorem C8_ping_frame_witness:
  "length_msg (info (base ping_msg)) = 4 \<and>
   outputBufferStart ping_msg = 7 \<and>
   read_at 7 4 (buffer (base ping_msg)) = ping \<and>
   read_at 7 7 (buffer (addPaddingBytes 0x33 3 (base ping_msg)))
     = read_at 7 4 (buffer (base ping_msg)) @ [0x33, 0x33, 0x33] \<and>
   (case and_then (writePaddingAmount (addPaddingBytes 0x33) ping_msg)
           (addCryptoHeader False 0) of
      Inl e \<Rightarrow> False
    | Inr (lg, om') \<Rightarrow>
        frame om' = [0, 0, 3, 0x50, 0x49, 0x4E, 0x47, 0x33, 0x33, 0x33])"
proof -
  have len: "length_msg (info (base ping_msg)) = 4"
    by (simp add: ping_msg_eval)
  have start: "outputBufferStart ping_msg = 7"
    by (simp add: ping_msg_eval)
  have payload: "read_at 7 4 (buffer (base ping_msg)) = ping"
    by (simp add: ping_msg_eval read_at_def ping_def)
  have padded_len: "length_msg (info (addPaddingBytes 0x33 3 (base ping_msg)))
                       = length_msg (info (base ping_msg)) + 3"
    by (simp add: padded_ping_eval len)
  have padded: "read_at 7 7 (buffer (addPaddingBytes 0x33 3 (base ping_msg)))
                   = read_at 7 4 (buffer (base ping_msg)) @ [0x33, 0x33, 0x33]"
    by (simp add: padded_ping_eval payload) (simp add: read_at_def ping_def)
  note t = C8_ping_frame [of ping_msg "addPaddingBytes 0x33" "0x33" "0x33" "0x33" 0,
      OF len start payload padded_len padded]
  show ?thesis
    using len start payload padded t by (auto split: sum.splits)
qed

text \<open>
  C10. \<^verbatim>\<open>reset()\<close> restores the bookkeeping only: the length becomes 0, the position
  the reserved-prefix offset 7 and the overrun flag is cleared, while the byte array is
  the one it was, so the bytes of the previous message are still there: after
  \<^verbatim>\<open>add<uint32_t>(0xDEADBEEF)\<close> and \<^verbatim>\<open>reset()\<close> the length is 0 and the four bytes
  are still at offset 7.
\<close>

theorem C10_reset_keeps_bytes:
  "length_msg (info (reset m)) = 0 \<and>
   position (info (reset m)) = 7 \<and>
   overrun (info (reset m)) = False \<and>
   buffer (reset m) = buffer m \<and>
   length_msg (info (reset written_msg)) = 0 \<and>
   read_at 7 4 (buffer (reset written_msg)) = bytes_of_u32 0xDEADBEEF"
proof -
  have bookkeeping: "info (reset m) = \<lparr>length_msg = 0, position = 7, overrun = False\<rparr>" for m
    by (simp add: reset_def NetworkMessageInfo_default_def INITIAL_BUFFER_POSITION_def)
  have bytes: "buffer (reset m) = buffer m" for m
    by (simp add: reset_def)
  have old: "read_at 7 4 (buffer written_msg) = bytes_of_u32 0xDEADBEEF"
    by (simp add: written_msg_eval read_at_def)
  show ?thesis
    by (simp add: bookkeeping bytes old)
qed

end
